theory Spec2Isabelle
  imports Complex_Main
begin

section \<open>The fit thread of the bumps webview server\<close>

text \<open>
  A shallow embedding of \<^verbatim>\<open>bumps/webview/server/fit_thread.py\<close>. Python floats are
  the real numbers they stand for; the sum in the rate gate of a monitor and the product
  in \<^verbatim>\<open>show_progress\<close> are rounded to doubles, while \<^verbatim>\<open>int(0.2*n)\<close> and
  \<^verbatim>\<open>int(0.5*n)\<close> are the floors of the exact products. Mutable objects that are shared by reference (the fit problem, the
  live point buffer of the optimizer, the sampler's uncertainty state) live in a store;
  an address is an index into it.
\<close>

subsection \<open>Values, events and the world\<close>

type_synonym addr = nat

text \<open>The content of a mutable object: the numbers it currently holds.\<close>

type_synonym obj = "real list"

text \<open>
  A numpy array built from a list of tuples: its shape and its rows. \<^verbatim>\<open>np.array\<close> of
  tuples of one length is a two-dimensional float array; of tuples of different lengths
  it is a one-dimensional array of objects.
\<close>

datatype ndarray = FloatArray "nat list" "real list list" | ObjectArray "nat list" "real list list"

datatype pyval = PNone | PStr string | PInt int | PFloat real | PRef addr | PVec "real list"
  | PArray ndarray

text \<open>An event is a Python dict, kept as the list of its items in insertion order.\<close>

type_synonym event = "(string \<times> pyval) list"

datatype chan = Progress | Complete

text \<open>
  What the worker thread does that others can see, in order: an event put on
  \<^verbatim>\<open>FIT_PROGRESS_QUEUE\<close> or \<^verbatim>\<open>FIT_COMPLETE_QUEUE\<close>, a call of the queue's loop's
  \<^verbatim>\<open>_write_to_self\<close>, and a call of \<^verbatim>\<open>final\<close> on the monitor at a position of the chain.
\<close>

datatype action = Put chan event | Wake chan | Final nat

record world =
  heap :: "obj list"
  log :: "action list"

datatype error = IndexError | FitError

definition alloc :: "obj \<Rightarrow> world \<Rightarrow> addr \<times> world" where
  "alloc v w = (length (heap w), w\<lparr>heap := heap w @ [v]\<rparr>)"

text \<open>\<^verbatim>\<open>deepcopy(x)\<close>: a new object with the content of the old one.\<close>

definition deepcopy :: "addr \<Rightarrow> world \<Rightarrow> addr \<times> world" where
  "deepcopy a w = alloc (heap w ! a) w"

text \<open>\<^verbatim>\<open>x + 0\<close> on a numpy vector: a new vector, each element plus zero.\<close>

definition add_zero :: "addr \<Rightarrow> world \<Rightarrow> addr \<times> world" where
  "add_zero a w = alloc (map (\<lambda>x. x + 0) (heap w ! a)) w"

definition put_nowait :: "chan \<Rightarrow> event \<Rightarrow> world \<Rightarrow> world" where
  "put_nowait c evt w = w\<lparr>log := log w @ [Put c evt]\<rparr>"

definition write_to_self :: "chan \<Rightarrow> world \<Rightarrow> world" where
  "write_to_self c w = w\<lparr>log := log w @ [Wake c]\<rparr>"

definition send_progress :: "event \<Rightarrow> world \<Rightarrow> world" where
  "send_progress evt w = write_to_self Progress (put_nowait Progress evt w)"

definition send_complete :: "event \<Rightarrow> world \<Rightarrow> world" where
  "send_complete evt w = write_to_self Complete (put_nowait Complete evt w)"

text \<open>The content of a queue, read off the log.\<close>

fun queue :: "chan \<Rightarrow> action list \<Rightarrow> event list" where
  "queue c [] = []"
| "queue c (Put c' e # as) = (if c' = c then e # queue c as else queue c as)"
| "queue c (a # as) = queue c as"

fun finals :: "action list \<Rightarrow> nat list" where
  "finals [] = []"
| "finals (Final i # as) = i # finals as"
| "finals (a # as) = finals as"

fun message :: "event \<Rightarrow> pyval" where
  "message [] = PNone"
| "message ((k, v) # kvs) = (if k = ''message'' then v else message kvs)"

subsection \<open>Double-precision arithmetic\<close>

text \<open>
  A Python float is a real number that an IEEE double represents. The sum and the product
  of two floats are the exact result rounded to the nearest double, ties to the even
  significand. \<open>binary_exponent\<close> finds the power of two at or below a positive number,
  \<open>ulp\<close> is the distance of neighbouring doubles there (2 to the -1074 in the subnormal
  range), and \<open>round_double\<close> rounds to a multiple of it. Results beyond the largest
  double (infinities) are not modelled.
\<close>

definition round_even :: "real \<Rightarrow> int" where
  "round_even q =
     (let f = \<lfloor>q\<rfloor>; d = q - of_int f
      in if d < 1 / 2 then f else if 1 / 2 < d then f + 1 else if even f then f else f + 1)"

fun binary_exponent :: "nat \<Rightarrow> real \<Rightarrow> int" where
  "binary_exponent n x =
     (if n = 0 then 0
      else if 2 \<le> x then binary_exponent (n - 1) (x / 2) + 1
      else if x < 1 then binary_exponent (n - 1) (2 * x) - 1
      else 0)"

declare binary_exponent.simps [simp del]

definition ulp :: "real \<Rightarrow> real" where
  "ulp x =
     (let e = max (binary_exponent 1100 \<bar>x\<bar>) (- 1022) - 52
      in if 0 \<le> e then 2 ^ nat e else 1 / 2 ^ nat (- e))"

definition round_double :: "real \<Rightarrow> real" where
  "round_double x = of_int (round_even (x / ulp x)) * ulp x"

definition float_add :: "real \<Rightarrow> real \<Rightarrow> real" where
  "float_add x y = round_double (x + y)"

definition float_mul :: "real \<Rightarrow> real \<Rightarrow> real" where
  "float_mul x y = round_double (x * y)"

subsection \<open>What is not in the source file\<close>

text \<open>
  \<^verbatim>\<open>nllf_scale\<close>, \<^verbatim>\<open>format_uncertainty\<close> (bumps.fitters) and \<^verbatim>\<open>can_pickle\<close>
  (bumps.mapper) are parameters, functions of the content of the problem they read.
  \<^verbatim>\<open>monitor.TimedUpdate\<close>, the base class of \<^verbatim>\<open>GUIProgressMonitor\<close>, is a parameter too:
  whether it has a \<^verbatim>\<open>final\<close> method is \<open>timed_update_has_final\<close> (an inherited
  \<^verbatim>\<open>final\<close> is taken to publish nothing), and the \<^verbatim>\<open>show_progress\<close> and
  \<^verbatim>\<open>show_improvement\<close> calls its \<^verbatim>\<open>__call__\<close> makes are given with each iteration.
\<close>

record env =
  nllf_scale :: "obj \<Rightarrow> real \<times> real"
  format_uncertainty :: "real \<Rightarrow> real \<Rightarrow> string"
  can_pickle :: "obj \<Rightarrow> bool"
  timed_update_has_final :: bool

datatype show_call = ShowProgress | ShowImprovement

text \<open>
  The history a monitor is called with: \<open>h_step\<close> is \<^verbatim>\<open>history.step[0]\<close> and so on.
  \<open>h_point\<close> is a reference to the optimizer's point buffer. \<open>h_population_values\<close>
  is \<open>None\<close> when the history has no attribute \<^verbatim>\<open>population_values\<close>, and
  \<open>h_uncertainty_state\<close> is \<open>None\<close> when \<^verbatim>\<open>getattr(history, 'uncertainty_state', None)\<close>
  is \<^verbatim>\<open>None\<close>.
\<close>

record history =
  h_step :: int
  h_value :: real
  h_point :: addr
  h_time :: real
  h_population_values :: "real list option"
  h_uncertainty_state :: "addr option"

subsection \<open>GUIProgressMonitor\<close>

definition PROGRESS_DELAY :: real where
  "PROGRESS_DELAY = 5"

definition IMPROVEMENT_DELAY :: real where
  "IMPROVEMENT_DELAY = 5"

record GUIProgressMonitor =
  gp_progress :: real
  gp_improvement :: real
  gp_problem :: addr

text \<open>\<^verbatim>\<open>progress or PROGRESS_DELAY\<close>: the default replaces \<^verbatim>\<open>None\<close> and zero.\<close>

definition or_default :: "real option \<Rightarrow> real \<Rightarrow> real" where
  "or_default v d = (case v of None \<Rightarrow> d | Some x \<Rightarrow> if x = 0 then d else x)"

definition GUIProgressMonitor_init :: "addr \<Rightarrow> real option \<Rightarrow> real option \<Rightarrow> GUIProgressMonitor" where
  "GUIProgressMonitor_init problem progress improvement =
     \<lparr>gp_progress = or_default progress PROGRESS_DELAY,
      gp_improvement = or_default improvement IMPROVEMENT_DELAY,
      gp_problem = problem\<rparr>"

definition show_progress :: "env \<Rightarrow> GUIProgressMonitor \<Rightarrow> history \<Rightarrow> world \<Rightarrow> world" where
  "show_progress E M h w =
     (let (scale, err) = nllf_scale E (heap w ! gp_problem M);
          chisq = format_uncertainty E (float_mul scale (h_value h)) err;
          (p, w1) = add_zero (h_point h) w;
          evt = [(''message'', PStr ''progress''),
                 (''step'', PInt (h_step h)),
                 (''value'', PFloat (h_value h)),
                 (''chisq'', PStr chisq),
                 (''point'', PRef p)]
      in send_progress evt w1)"

definition show_improvement :: "GUIProgressMonitor \<Rightarrow> history \<Rightarrow> world \<Rightarrow> world" where
  "show_improvement M h w =
     (let (p, w1) = add_zero (h_point h) w;
          evt = [(''problem'', PRef (gp_problem M)),
                 (''message'', PStr ''improvement''),
                 (''step'', PInt (h_step h)),
                 (''value'', PFloat (h_value h)),
                 (''point'', PRef p)]
      in send_progress evt w1)"

fun GUIProgressMonitor_call ::
  "env \<Rightarrow> show_call list \<Rightarrow> GUIProgressMonitor \<Rightarrow> history \<Rightarrow> world \<Rightarrow> world" where
  "GUIProgressMonitor_call E [] M h w = w"
| "GUIProgressMonitor_call E (ShowProgress # cs) M h w =
     GUIProgressMonitor_call E cs M h (show_progress E M h w)"
| "GUIProgressMonitor_call E (ShowImprovement # cs) M h w =
     GUIProgressMonitor_call E cs M h (show_improvement M h w)"

subsection \<open>ConvergenceMonitor\<close>

record ConvergenceMonitor =
  cm_time :: real
  cm_rate :: real
  cm_problem :: addr
  cm_message :: string
  cm_pop :: "real list list"

definition ConvergenceMonitor_init :: "addr \<Rightarrow> string \<Rightarrow> real \<Rightarrow> ConvergenceMonitor" where
  "ConvergenceMonitor_init problem msg rate =
     \<lparr>cm_time = 0, cm_rate = rate, cm_problem = problem, cm_message = msg, cm_pop = []\<rparr>"

text \<open>\<^verbatim>\<open>p[i]\<close>: an index below zero is taken from the end of the array.\<close>

definition py_index :: "'a list \<Rightarrow> int \<Rightarrow> error + 'a" where
  "py_index xs i =
     (if 0 \<le> i \<and> i < int (length xs) then Inr (xs ! nat i)
      else if i < 0 \<and> - int (length xs) \<le> i then Inr (xs ! nat (int (length xs) + i))
      else Inl IndexError)"

text \<open>The elements of a tuple are evaluated left to right; the first error wins.\<close>

fun collect :: "(error + 'a) list \<Rightarrow> error + 'a list" where
  "collect [] = Inr []"
| "collect (Inl e # rs) = Inl e"
| "collect (Inr x # rs) = (case collect rs of Inl e \<Rightarrow> Inl e | Inr xs \<Rightarrow> Inr (x # xs))"

text \<open>
  The \<^verbatim>\<open>try\<close> block of \<^verbatim>\<open>__call__\<close>: the tuple that is appended to \<^verbatim>\<open>self.pop\<close>.
  Only \<^verbatim>\<open>AttributeError\<close> (no \<^verbatim>\<open>population_values\<close>) is caught.
\<close>

definition sample :: "history \<Rightarrow> error + real list" where
  "sample h =
     (let best = h_value h in
      case h_population_values h of
        None \<Rightarrow> Inr [best]
      | Some pop \<Rightarrow>
          (let n = length pop;
               p = sort pop;
               QI = \<lfloor>0.2 * real n\<rfloor>;
               Qmid = \<lfloor>0.5 * real n\<rfloor>
           in case collect (map (py_index p) [0, QI, Qmid, - 1 - QI, - 1]) of
                Inl e \<Rightarrow> Inl e
              | Inr qs \<Rightarrow> Inr (best # qs)))"

definition np_array :: "real list list \<Rightarrow> ndarray" where
  "np_array rows =
     (case rows of
        [] \<Rightarrow> FloatArray [0] []
      | r # _ \<Rightarrow>
          if list_all (\<lambda>r'. length r' = length r) rows
          then FloatArray [length rows, length r] rows
          else ObjectArray [length rows] rows)"

definition progress :: "ConvergenceMonitor \<Rightarrow> ndarray" where
  "progress M = (if cm_pop M = [] then FloatArray [0, 1] [] else np_array (cm_pop M))"

definition convergence_event :: "ConvergenceMonitor \<Rightarrow> event" where
  "convergence_event M =
     [(''problem'', PRef (cm_problem M)),
      (''message'', PStr (cm_message M)),
      (''pop'', PArray (progress M))]"

definition ConvergenceMonitor_call ::
  "ConvergenceMonitor \<Rightarrow> history \<Rightarrow> world \<Rightarrow> (error + ConvergenceMonitor) \<times> world" where
  "ConvergenceMonitor_call M h w =
     (case sample h of
        Inl e \<Rightarrow> (Inl e, w)
      | Inr t \<Rightarrow>
          (let M1 = M\<lparr>cm_pop := cm_pop M @ [t]\<rparr> in
           if cm_rate M1 > 0 \<and> h_time h \<ge> float_add (cm_time M1) (cm_rate M1)
           then (Inr (M1\<lparr>cm_time := h_time h\<rparr>), send_progress (convergence_event M1) w)
           else (Inr M1, w)))"

definition ConvergenceMonitor_final :: "ConvergenceMonitor \<Rightarrow> world \<Rightarrow> world" where
  "ConvergenceMonitor_final M w = send_progress (convergence_event M) w"

subsection \<open>DreamMonitor\<close>

record DreamMonitor =
  dm_time :: real
  dm_rate :: real
  dm_problem :: addr
  dm_fitter :: string
  dm_message :: string
  dm_uncertainty_state :: "addr option"

definition DreamMonitor_init :: "addr \<Rightarrow> string \<Rightarrow> string \<Rightarrow> real \<Rightarrow> DreamMonitor" where
  "DreamMonitor_init problem msg fitter rate =
     \<lparr>dm_time = 0, dm_rate = rate, dm_problem = problem, dm_fitter = fitter,
      dm_message = msg, dm_uncertainty_state = None\<rparr>"

definition uncertainty_event :: "DreamMonitor \<Rightarrow> string \<Rightarrow> addr \<Rightarrow> world \<Rightarrow> world" where
  "uncertainty_event M msg a w =
     (let (c, w1) = deepcopy a w;
          evt = [(''problem'', PRef (dm_problem M)),
                 (''message'', PStr msg),
                 (''uncertainty_state'', PRef c)]
      in send_progress evt w1)"

definition DreamMonitor_call :: "DreamMonitor \<Rightarrow> history \<Rightarrow> world \<Rightarrow> DreamMonitor \<times> world" where
  "DreamMonitor_call M h w =
     (let M1 = M\<lparr>dm_uncertainty_state := h_uncertainty_state h\<rparr> in
      if dm_rate M1 > 0 \<and> h_time h \<ge> float_add (dm_time M1) (dm_rate M1)
      then (case dm_uncertainty_state M1 of
              None \<Rightarrow> (M1, w)
            | Some a \<Rightarrow>
                (M1\<lparr>dm_time := h_time h\<rparr>, uncertainty_event M1 ''uncertainty_update'' a w))
      else (M1, w))"

definition DreamMonitor_final :: "DreamMonitor \<Rightarrow> world \<Rightarrow> world" where
  "DreamMonitor_final M w =
     (case dm_uncertainty_state M of
        None \<Rightarrow> w
      | Some a \<Rightarrow> uncertainty_event M ''uncertainty_final'' a w)"

subsection \<open>The monitor chain\<close>

datatype monitor =
    GUIProgress GUIProgressMonitor
  | Convergence ConvergenceMonitor
  | Dream DreamMonitor

text \<open>\<^verbatim>\<open>M(history)\<close>, for a monitor of the chain.\<close>

fun call_monitor ::
  "env \<Rightarrow> show_call list \<Rightarrow> monitor \<Rightarrow> history \<Rightarrow> world \<Rightarrow> (error + monitor) \<times> world" where
  "call_monitor E cs (GUIProgress M) h w = (Inr (GUIProgress M), GUIProgressMonitor_call E cs M h w)"
| "call_monitor E cs (Convergence M) h w =
     (case ConvergenceMonitor_call M h w of
        (Inl e, w1) \<Rightarrow> (Inl e, w1)
      | (Inr M1, w1) \<Rightarrow> (Inr (Convergence M1), w1))"
| "call_monitor E cs (Dream M) h w =
     (case DreamMonitor_call M h w of (M1, w1) \<Rightarrow> (Inr (Dream M1), w1))"

fun call_monitors ::
  "env \<Rightarrow> show_call list \<Rightarrow> monitor list \<Rightarrow> history \<Rightarrow> world \<Rightarrow> (error + monitor list) \<times> world" where
  "call_monitors E cs [] h w = (Inr [], w)"
| "call_monitors E cs (M # Ms) h w =
     (case call_monitor E cs M h w of
        (Inl e, w1) \<Rightarrow> (Inl e, w1)
      | (Inr M1, w1) \<Rightarrow>
          (case call_monitors E cs Ms h w1 of
             (Inl e, w2) \<Rightarrow> (Inl e, w2)
           | (Inr Ms1, w2) \<Rightarrow> (Inr (M1 # Ms1), w2)))"

text \<open>\<^verbatim>\<open>hasattr(M, 'final')\<close> and \<^verbatim>\<open>M.final()\<close>.\<close>

fun has_final :: "env \<Rightarrow> monitor \<Rightarrow> bool" where
  "has_final E (GUIProgress M) = timed_update_has_final E"
| "has_final E (Convergence M) = True"
| "has_final E (Dream M) = True"

fun final :: "monitor \<Rightarrow> world \<Rightarrow> world" where
  "final (GUIProgress M) w = w"
| "final (Convergence M) w = ConvergenceMonitor_final M w"
| "final (Dream M) w = DreamMonitor_final M w"

text \<open>
  The loop \<^verbatim>\<open>for M in monitors: if hasattr(M, 'final'): M.final()\<close>; \<open>i\<close> is the position
  of the head of the list in the chain.
\<close>

fun final_monitors :: "env \<Rightarrow> nat \<Rightarrow> monitor list \<Rightarrow> world \<Rightarrow> world" where
  "final_monitors E i [] w = w"
| "final_monitors E i (M # Ms) w =
     (if has_final E M
      then final_monitors E (Suc i) Ms (final M (w\<lparr>log := log w @ [Final i]\<rparr>))
      else final_monitors E (Suc i) Ms w)"

subsection \<open>The fit driver\<close>

text \<open>
  Modelled from the spec: \<^verbatim>\<open>FitDriver\<close> (bumps.fitters) is not in the source. The spec has
  it poll the abort test between iterations, start no iteration once the test is true,
  call the monitor chain once per iteration and return the best point and value. What
  the algorithm does is given as a script: for each iteration the content of the abort
  queue when the driver polls it, what the algorithm writes to the problem it was handed
  and to its point buffer and uncertainty state, the history it presents, and the
  \<^verbatim>\<open>show_\<close> calls of \<^verbatim>\<open>TimedUpdate.__call__\<close>; then how \<^verbatim>\<open>fit\<close> ends, a last write to
  the problem, and the text \<^verbatim>\<open>show\<close> prints. An exception raised by a monitor leaves
  \<^verbatim>\<open>fit\<close>.
\<close>

record iteration =
  it_abort_queue :: "unit list"
  it_problem :: "obj option"
  it_step :: int
  it_value :: real
  it_point :: obj
  it_time :: real
  it_population_values :: "real list option"
  it_uncertainty_state :: "obj option"
  it_shows :: "show_call list"

datatype fit_end = Returns pyval pyval | Raises

record script =
  iterations :: "iteration list"
  ending :: fit_end
  last_problem :: "obj option"
  show_output :: string

datatype mapper = MPMapper | SerialMapper

record FitDriver =
  dr_fitclass :: string
  dr_problem :: addr
  dr_mapper :: mapper
  dr_point :: addr
  dr_state :: addr

definition FitDriver_init :: "string \<Rightarrow> addr \<Rightarrow> mapper \<Rightarrow> world \<Rightarrow> FitDriver \<times> world" where
  "FitDriver_init fitclass problem mp w =
     (let (pt, w1) = alloc [] w;
          (st, w2) = alloc [] w1
      in (\<lparr>dr_fitclass = fitclass, dr_problem = problem, dr_mapper = mp,
           dr_point = pt, dr_state = st\<rparr>, w2))"

definition write_obj :: "addr \<Rightarrow> obj option \<Rightarrow> world \<Rightarrow> world" where
  "write_obj a v w = (case v of None \<Rightarrow> w | Some x \<Rightarrow> w\<lparr>heap := (heap w)[a := x]\<rparr>)"

definition driver_step :: "FitDriver \<Rightarrow> iteration \<Rightarrow> world \<Rightarrow> world" where
  "driver_step D it w =
     write_obj (dr_state D) (it_uncertainty_state it)
       (write_obj (dr_point D) (Some (it_point it))
          (write_obj (dr_problem D) (it_problem it) w))"

definition history_of :: "FitDriver \<Rightarrow> iteration \<Rightarrow> history" where
  "history_of D it =
     \<lparr>h_step = it_step it, h_value = it_value it, h_point = dr_point D, h_time = it_time it,
      h_population_values = it_population_values it,
      h_uncertainty_state =
        (case it_uncertainty_state it of None \<Rightarrow> None | Some s \<Rightarrow> Some (dr_state D))\<rparr>"

text \<open>\<^verbatim>\<open>FitThread.abort_test\<close>: \<^verbatim>\<open>not self.abort_queue.empty()\<close>.\<close>

definition abort_test :: "'a list \<Rightarrow> bool" where
  "abort_test abort_queue = (\<not> (abort_queue = []))"

fun fit_loop ::
  "env \<Rightarrow> FitDriver \<Rightarrow> iteration list \<Rightarrow> monitor list \<Rightarrow> world \<Rightarrow> (error + monitor list) \<times> world" where
  "fit_loop E D [] Ms w = (Inr Ms, w)"
| "fit_loop E D (it # its) Ms w =
     (if abort_test (it_abort_queue it) then (Inr Ms, w)
      else (case call_monitors E (it_shows it) Ms (history_of D it) (driver_step D it w) of
              (Inl e, w1) \<Rightarrow> (Inl e, w1)
            | (Inr Ms1, w1) \<Rightarrow> fit_loop E D its Ms1 w1))"

definition fit ::
  "env \<Rightarrow> FitDriver \<Rightarrow> script \<Rightarrow> monitor list \<Rightarrow> world
     \<Rightarrow> (error + monitor list \<times> pyval \<times> pyval) \<times> world" where
  "fit E D S Ms w =
     (case fit_loop E D (iterations S) Ms w of
        (Inl e, w1) \<Rightarrow> (Inl e, w1)
      | (Inr Ms1, w1) \<Rightarrow>
          (case ending S of
             Raises \<Rightarrow> (Inl FitError, w1)
           | Returns x fx \<Rightarrow> (Inr (Ms1, x, fx), write_obj (dr_problem D) (last_problem S) w1)))"

subsection \<open>FitThread\<close>

record FitThread =
  ft_problem :: addr
  ft_fitclass :: string
  ft_convergence_update :: real
  ft_uncertainty_update :: real

definition make_monitors :: "FitThread \<Rightarrow> monitor list" where
  "make_monitors T =
     [GUIProgress (GUIProgressMonitor_init (ft_problem T) None None),
      Convergence (ConvergenceMonitor_init (ft_problem T) ''convergence_update''
                    (ft_convergence_update T)),
      Dream (DreamMonitor_init (ft_problem T) ''uncertainty_update'' (ft_fitclass T)
               (ft_uncertainty_update T))]"

text \<open>The part of \<^verbatim>\<open>run\<close> up to the construction of the driver.\<close>

definition make_driver :: "env \<Rightarrow> FitThread \<Rightarrow> world \<Rightarrow> FitDriver \<times> world" where
  "make_driver E T w =
     (let mp = (if can_pickle E (heap w ! ft_problem T) then MPMapper else SerialMapper);
          (problem, w1) = deepcopy (ft_problem T) w
      in FitDriver_init (ft_fitclass T) problem mp w1)"

definition complete_event :: "FitThread \<Rightarrow> pyval \<Rightarrow> pyval \<Rightarrow> string \<Rightarrow> event" where
  "complete_event T x fx captured_output =
     [(''message'', PStr ''complete''),
      (''problem'', PRef (ft_problem T)),
      (''point'', x),
      (''value'', fx),
      (''info'', PStr captured_output)]"

text \<open>The part of \<^verbatim>\<open>run\<close> up to and with \<^verbatim>\<open>x, fx = driver.fit()\<close>.\<close>

definition run_fit ::
  "env \<Rightarrow> FitThread \<Rightarrow> script \<Rightarrow> world \<Rightarrow> (error + monitor list \<times> pyval \<times> pyval) \<times> world" where
  "run_fit E T S w =
     (let monitors = make_monitors T;
          (driver, w1) = make_driver E T w
      in fit E driver S monitors w1)"

text \<open>\<^verbatim>\<open>FitThread.run\<close>; the result is \<^verbatim>\<open>self.result\<close>, or the exception that leaves it.\<close>

definition run :: "env \<Rightarrow> FitThread \<Rightarrow> script \<Rightarrow> world \<Rightarrow> (error + event) \<times> world" where
  "run E T S w =
     (case run_fit E T S w of
        (Inl e, w2) \<Rightarrow> (Inl e, w2)
      | (Inr (Ms, x, fx), w2) \<Rightarrow>
          (let w3 = final_monitors E 0 Ms w2;
               captured_output = show_output S;
               evt = complete_event T x fx captured_output
           in (Inr evt, send_complete evt w3)))"

subsection \<open>Reading the log and the monitors\<close>

text \<open>Every event that is put on a queue is followed at once by the wake of that queue.\<close>

fun every_put_woken :: "action list \<Rightarrow> bool" where
  "every_put_woken [] = True"
| "every_put_woken (Put c e # Wake c' # as) = (c = c' \<and> every_put_woken as)"
| "every_put_woken (Put c e # as) = False"
| "every_put_woken (a # as) = every_put_woken as"

text \<open>
  A stretch of the log that holds nothing but publications on the progress channel, each
  an event that \<open>Q\<close> accepts and its wake.
\<close>

fun pubs :: "(event \<Rightarrow> bool) \<Rightarrow> action list \<Rightarrow> bool" where
  "pubs Q [] = True"
| "pubs Q (Put Progress e # Wake Progress # as) = (Q e \<and> pubs Q as)"
| "pubs Q (a # as) = False"

definition not_convergence :: "bool \<Rightarrow> event \<Rightarrow> bool" where
  "not_convergence b e = (b \<or> message e \<noteq> PStr ''convergence_update'')"

fun same_class :: "monitor \<Rightarrow> monitor \<Rightarrow> bool" where
  "same_class (GUIProgress M) (GUIProgress M') = True"
| "same_class (Convergence M) (Convergence M') = (cm_rate M' = cm_rate M \<and> cm_message M' = cm_message M)"
| "same_class (Dream M) (Dream M') = True"
| "same_class M M' = False"

fun quiet :: "monitor \<Rightarrow> bool" where
  "quiet (Convergence M) = (cm_rate M \<le> 0)"
| "quiet M = True"

text \<open>What the second world has in its log after the log of the first.\<close>

definition new_log :: "world \<Rightarrow> world \<Rightarrow> action list" where
  "new_log w w' = drop (length (log w)) (log w')"

text \<open>From the first world to the second, the log grew by publications that \<open>Q\<close> accepts.\<close>

definition publishes :: "(event \<Rightarrow> bool) \<Rightarrow> world \<Rightarrow> world \<Rightarrow> bool" where
  "publishes Q w w' =
     (take (length (log w)) (log w') = log w \<and> pubs Q (drop (length (log w)) (log w')))"

text \<open>The objects at the first \<open>n\<close> addresses are the same in both worlds.\<close>

definition preserves :: "nat \<Rightarrow> world \<Rightarrow> world \<Rightarrow> bool" where
  "preserves n w w' = (length (heap w) \<le> length (heap w') \<and> take n (heap w') = take n (heap w))"

fun rows :: "ndarray \<Rightarrow> real list list" where
  "rows (FloatArray sh rs) = rs"
| "rows (ObjectArray sh rs) = rs"

fun shape :: "ndarray \<Rightarrow> nat list" where
  "shape (FloatArray sh rs) = sh"
| "shape (ObjectArray sh rs) = sh"

text \<open>A monitor called on one history after the other, as the driver does.\<close>

fun convergence_calls ::
  "ConvergenceMonitor \<Rightarrow> history list \<Rightarrow> world \<Rightarrow> (error + ConvergenceMonitor) \<times> world" where
  "convergence_calls M [] w = (Inr M, w)"
| "convergence_calls M (h # hs) w =
     (case ConvergenceMonitor_call M h w of
        (Inl e, w1) \<Rightarrow> (Inl e, w1)
      | (Inr M1, w1) \<Rightarrow> convergence_calls M1 hs w1)"

fun dream_calls :: "DreamMonitor \<Rightarrow> history list \<Rightarrow> world \<Rightarrow> DreamMonitor \<times> world" where
  "dream_calls M [] w = (M, w)"
| "dream_calls M (h # hs) w =
     (case DreamMonitor_call M h w of (M1, w1) \<Rightarrow> dream_calls M1 hs w1)"

text \<open>
  The values of \<^verbatim>\<open>history.time[0]\<close> at which \<^verbatim>\<open>__call__\<close> published an event, for a
  monitor called on a sequence of histories, each in a world of its own.
\<close>

fun convergence_emissions :: "ConvergenceMonitor \<Rightarrow> (history \<times> world) list \<Rightarrow> real list" where
  "convergence_emissions M [] = []"
| "convergence_emissions M ((h, w) # hws) =
     (case ConvergenceMonitor_call M h w of
        (Inl e, w1) \<Rightarrow> []
      | (Inr M1, w1) \<Rightarrow>
          (if log w1 = log w then [] else [h_time h]) @ convergence_emissions M1 hws)"

fun dream_emissions :: "DreamMonitor \<Rightarrow> (history \<times> world) list \<Rightarrow> real list" where
  "dream_emissions M [] = []"
| "dream_emissions M ((h, w) # hws) =
     (case DreamMonitor_call M h w of
        (M1, w1) \<Rightarrow> (if log w1 = log w then [] else [h_time h]) @ dream_emissions M1 hws)"

subsection \<open>Concrete inputs\<close>

definition example_env :: env where
  "example_env =
     \<lparr>nllf_scale = (\<lambda>p. (1, 0)), format_uncertainty = (\<lambda>v e. ''1.0(0)''),
      can_pickle = (\<lambda>p. False), timed_update_has_final = False\<rparr>"

definition example_world :: world where
  "example_world = \<lparr>heap = [[0, 0]], log = []\<rparr>"

definition example_history :: history where
  "example_history =
     \<lparr>h_step = 1, h_value = 2, h_point = 0, h_time = 1,
      h_population_values = Some [5, 3, 9, 1, 7], h_uncertainty_state = None\<rparr>"

definition timed_histories :: "(history \<times> world) list" where
  "timed_histories =
     map (\<lambda>t. (example_history\<lparr>h_time := t, h_uncertainty_state := Some 0\<rparr>, example_world))
       [1, 2, 3, 5]"

definition example_thread :: FitThread where
  "example_thread =
     \<lparr>ft_problem = 0, ft_fitclass = ''amoeba'', ft_convergence_update = 0,
      ft_uncertainty_update = 300\<rparr>"

definition example_iteration :: "int \<Rightarrow> iteration" where
  "example_iteration k =
     \<lparr>it_abort_queue = [], it_problem = Some [real_of_int k, 1], it_step = k, it_value = 1,
      it_point = [real_of_int k, 1], it_time = real_of_int k,
      it_population_values = Some [5, 3, 9, 1, 7], it_uncertainty_state = None,
      it_shows = [ShowProgress, ShowImprovement]\<rparr>"

text \<open>Five iterations, then \<^verbatim>\<open>fit\<close> returns.\<close>

definition example_script :: script where
  "example_script =
     \<lparr>iterations = map example_iteration [1, 2, 3, 4, 5],
      ending = Returns (PVec [5, 1]) (PFloat 1), last_problem = Some [5, 1],
      show_output = ''chisq 1.0''\<rparr>"

text \<open>One iteration, then \<^verbatim>\<open>fit\<close> raises.\<close>

definition failing_script :: script where
  "failing_script =
     \<lparr>iterations = [example_iteration 1], ending = Raises, last_problem = None,
      show_output = []\<rparr>"

definition state_history :: history where
  "state_history = example_history\<lparr>h_uncertainty_state := Some 0\<rparr>"

definition plain_history :: history where
  "plain_history = example_history\<lparr>h_population_values := None, h_time := 5\<rparr>"

text \<open>
  The doubles of the literals 0.1, 0.7 and 0.7999999999999999, and two histories with the
  last two as their times.
\<close>

definition tenth :: real where
  "tenth = 3602879701896397 / 2 ^ 55"

definition seven_tenths :: real where
  "seven_tenths = 3152519739159347 / 2 ^ 52"

definition almost_eight_tenths :: real where
  "almost_eight_tenths = 7205759403792793 / 2 ^ 53"

definition close_histories :: "(history \<times> world) list" where
  "close_histories =
     map (\<lambda>t. (example_history\<lparr>h_time := t, h_uncertainty_state := Some 0\<rparr>, example_world))
       [seven_tenths, almost_eight_tenths]"

section \<open>Properties\<close>

subsection \<open>Rounding\<close>

lemmas float_eval =
  float_add_def float_mul_def round_double_def ulp_def binary_exponent.simps round_even_def Let_def

lemma ulp_pos: "0 < ulp x"
  by (simp add: ulp_def Let_def)

lemma round_even_near: "\<bar>of_int (round_even q) - q\<bar> \<le> 1 / 2"
  unfolding round_even_def Let_def by (auto simp: abs_le_iff)

lemma round_double_near: "\<bar>round_double x - x\<bar> \<le> ulp x / 2"
proof -
  have "round_double x - x = (of_int (round_even (x / ulp x)) - x / ulp x) * ulp x"
    using ulp_pos[of x] by (simp add: round_double_def algebra_simps)
  then have "\<bar>round_double x - x\<bar> = \<bar>of_int (round_even (x / ulp x)) - x / ulp x\<bar> * ulp x"
    using ulp_pos[of x] by (simp add: abs_mult)
  also have "\<dots> \<le> 1 / 2 * ulp x"
    using round_even_near[of "x / ulp x"] ulp_pos[of x] by (intro mult_right_mono) auto
  finally show ?thesis by simp
qed

lemma float_add_lower: "float_add s r \<le> t \<Longrightarrow> r - ulp (s + r) / 2 \<le> t - s"
  using round_double_near[of "s + r"] unfolding float_add_def abs_le_iff by linarith

lemma float_add_small:
  "float_add 0 2 = 2" "float_add 2 2 = 4" "float_add 0 300 = 300"
  by (simp_all add: float_eval)

subsection \<open>Logs\<close>

lemma queue_append: "queue c (xs @ ys) = queue c xs @ queue c ys"
  by (induction c xs rule: queue.induct) auto

lemma finals_append: "finals (xs @ ys) = finals xs @ finals ys"
  by (induction xs rule: finals.induct) auto

lemma every_put_woken_append:
  "every_put_woken xs \<Longrightarrow> every_put_woken ys \<Longrightarrow> every_put_woken (xs @ ys)"
  by (induction xs rule: every_put_woken.induct) auto

lemma pubs_append: "pubs Q xs \<Longrightarrow> pubs Q ys \<Longrightarrow> pubs Q (xs @ ys)"
  by (induction Q xs rule: pubs.induct) auto

lemma pubs_woken: "pubs Q xs \<Longrightarrow> every_put_woken xs"
  by (induction Q xs rule: pubs.induct) auto

lemma pubs_no_complete: "pubs Q xs \<Longrightarrow> queue Complete xs = []"
  by (induction Q xs rule: pubs.induct) auto

lemma pubs_no_final: "pubs Q xs \<Longrightarrow> finals xs = []"
  by (induction Q xs rule: pubs.induct) auto

lemma pubs_all: "pubs Q xs \<Longrightarrow> list_all Q (queue Progress xs)"
  by (induction Q xs rule: pubs.induct) auto

lemma pubs_mono: "pubs Q xs \<Longrightarrow> (\<And>e. Q e \<Longrightarrow> R e) \<Longrightarrow> pubs R xs"
  by (induction Q xs rule: pubs.induct) auto

lemma publishes_iff: "publishes Q w w' \<longleftrightarrow> (\<exists>new. log w' = log w @ new \<and> pubs Q new)"
  unfolding publishes_def
  by (metis append_eq_conv_conj)

lemma publishes_refl: "log w' = log w \<Longrightarrow> publishes Q w w'"
  by (simp add: publishes_iff)

lemma publishes_trans: "publishes Q w w1 \<Longrightarrow> publishes Q w1 w2 \<Longrightarrow> publishes Q w w2"
  by (auto simp: publishes_iff intro: pubs_append)

lemma send_progress_eq:
  "send_progress evt w = w\<lparr>log := log w @ [Put Progress evt, Wake Progress]\<rparr>"
  by (simp add: send_progress_def put_nowait_def write_to_self_def)

lemma send_complete_eq:
  "send_complete evt w = w\<lparr>log := log w @ [Put Complete evt, Wake Complete]\<rparr>"
  by (simp add: send_complete_def put_nowait_def write_to_self_def)

lemma publishes_send: "Q evt \<Longrightarrow> log w1 = log w \<Longrightarrow> publishes Q w (send_progress evt w1)"
  by (simp add: publishes_iff send_progress_eq)

subsection \<open>Store\<close>

lemma preserves_refl: "heap w' = heap w \<Longrightarrow> preserves n w w'"
  by (simp add: preserves_def)

lemma preserves_trans: "preserves n w w1 \<Longrightarrow> preserves n w1 w2 \<Longrightarrow> preserves n w w2"
  by (simp add: preserves_def)

lemma preserves_append: "n \<le> length (heap w) \<Longrightarrow> heap w' = heap w @ xs \<Longrightarrow> preserves n w w'"
  by (simp add: preserves_def)

lemma preserves_update:
  "n \<le> a \<Longrightarrow> heap w' = (heap w)[a := x] \<Longrightarrow> preserves n w w'"
  by (simp add: preserves_def)

lemma preserves_nth: "preserves n w w' \<Longrightarrow> a < n \<Longrightarrow> heap w' ! a = heap w ! a"
  unfolding preserves_def by (metis nth_take)

lemma preserves_length: "preserves n w w' \<Longrightarrow> length (heap w) \<le> length (heap w')"
  by (simp add: preserves_def)

subsection \<open>The monitors, one by one\<close>

lemma show_progress_eq:
  "show_progress E M h w =
     w\<lparr>heap := heap w @ [heap w ! h_point h],
       log := log w @
         [Put Progress [(''message'', PStr ''progress''), (''step'', PInt (h_step h)),
            (''value'', PFloat (h_value h)),
            (''chisq'', PStr (format_uncertainty E
               (float_mul (fst (nllf_scale E (heap w ! gp_problem M))) (h_value h))
               (snd (nllf_scale E (heap w ! gp_problem M))))),
            (''point'', PRef (length (heap w)))],
          Wake Progress]\<rparr>"
  by (simp add: show_progress_def add_zero_def alloc_def send_progress_eq split_beta)

lemma show_improvement_eq:
  "show_improvement M h w =
     w\<lparr>heap := heap w @ [heap w ! h_point h],
       log := log w @
         [Put Progress [(''problem'', PRef (gp_problem M)), (''message'', PStr ''improvement''),
            (''step'', PInt (h_step h)), (''value'', PFloat (h_value h)),
            (''point'', PRef (length (heap w)))],
          Wake Progress]\<rparr>"
  by (simp add: show_improvement_def add_zero_def alloc_def send_progress_eq)

lemma GUIProgressMonitor_call_publishes:
  "publishes (not_convergence b) w (GUIProgressMonitor_call E cs M h w)"
proof (induction E cs M h w rule: GUIProgressMonitor_call.induct)
  case (1 E M h w)
  then show ?case by (simp add: publishes_refl)
next
  case (2 E cs M h w)
  have "publishes (not_convergence b) w (show_progress E M h w)"
    by (simp add: publishes_iff show_progress_eq not_convergence_def)
  then show ?case using 2 by (auto intro: publishes_trans)
next
  case (3 E cs M h w)
  have "publishes (not_convergence b) w (show_improvement M h w)"
    by (simp add: publishes_iff show_improvement_eq not_convergence_def)
  then show ?case using 3 by (auto intro: publishes_trans)
qed

lemma GUIProgressMonitor_call_preserves:
  "n \<le> length (heap w) \<Longrightarrow> preserves n w (GUIProgressMonitor_call E cs M h w)"
proof (induction E cs M h w rule: GUIProgressMonitor_call.induct)
  case (1 E M h w)
  then show ?case by (simp add: preserves_refl)
next
  case (2 E cs M h w)
  have a: "preserves n w (show_progress E M h w)"
    using 2 by (simp add: preserves_def show_progress_eq)
  have "n \<le> length (heap (show_progress E M h w))" using 2 by (simp add: show_progress_eq)
  then show ?case using 2 a by (auto intro: preserves_trans)
next
  case (3 E cs M h w)
  have a: "preserves n w (show_improvement M h w)"
    using 3 by (simp add: preserves_def show_improvement_eq)
  have "n \<le> length (heap (show_improvement M h w))" using 3 by (simp add: show_improvement_eq)
  then show ?case using 3 a by (auto intro: preserves_trans)
qed

lemma ConvergenceMonitor_call_cases:
  "ConvergenceMonitor_call M h w = (r, w') \<Longrightarrow>
     (\<exists>e. sample h = Inl e \<and> r = Inl e \<and> w' = w) \<or>
     (\<exists>t. sample h = Inr t \<and>
        (if cm_rate M > 0 \<and> h_time h \<ge> float_add (cm_time M) (cm_rate M)
         then r = Inr (M\<lparr>cm_pop := cm_pop M @ [t], cm_time := h_time h\<rparr>) \<and>
              w' = w\<lparr>log := log w @ [Put Progress (convergence_event (M\<lparr>cm_pop := cm_pop M @ [t]\<rparr>)), Wake Progress]\<rparr>
         else r = Inr (M\<lparr>cm_pop := cm_pop M @ [t]\<rparr>) \<and> w' = w))"
  by (auto simp: ConvergenceMonitor_call_def Let_def send_progress_eq split: sum.splits if_splits)

lemma uncertainty_event_eq:
  "uncertainty_event M msg a w =
     w\<lparr>heap := heap w @ [heap w ! a],
       log := log w @
         [Put Progress [(''problem'', PRef (dm_problem M)), (''message'', PStr msg),
            (''uncertainty_state'', PRef (length (heap w)))],
          Wake Progress]\<rparr>"
  by (simp add: uncertainty_event_def deepcopy_def alloc_def send_progress_eq)

lemma DreamMonitor_call_cases:
  "DreamMonitor_call M h w = (M', w') \<Longrightarrow>
     (if dm_rate M > 0 \<and> h_time h \<ge> float_add (dm_time M) (dm_rate M) \<and> h_uncertainty_state h \<noteq> None
      then M' = M\<lparr>dm_uncertainty_state := h_uncertainty_state h, dm_time := h_time h\<rparr> \<and>
           w' = uncertainty_event (M\<lparr>dm_uncertainty_state := h_uncertainty_state h\<rparr>)
                  ''uncertainty_update'' (the (h_uncertainty_state h)) w
      else M' = M\<lparr>dm_uncertainty_state := h_uncertainty_state h\<rparr> \<and> w' = w)"
  by (auto simp: DreamMonitor_call_def Let_def split: option.splits if_splits)

subsection \<open>The chain\<close>

lemma same_class_quiet: "same_class M M' \<Longrightarrow> quiet M \<Longrightarrow> quiet M'"
  by (induction M M' rule: same_class.induct) auto

lemma same_class_trans: "same_class M M1 \<Longrightarrow> same_class M1 M2 \<Longrightarrow> same_class M M2"
  by (cases M; cases M1; cases M2) auto

lemma same_class_refl: "same_class M M"
  by (cases M) auto

lemma same_class_has_final: "same_class M M' \<Longrightarrow> has_final E M' = has_final E M"
  by (induction M M' rule: same_class.induct) auto

lemma call_monitor_same: "call_monitor E cs M h w = (Inr M', w') \<Longrightarrow> same_class M M'"
proof (cases M)
  case (GUIProgress g)
  then show "call_monitor E cs M h w = (Inr M', w') \<Longrightarrow> same_class M M'" by auto
next
  case (Convergence c)
  assume a: "call_monitor E cs M h w = (Inr M', w')"
  obtain r w1 where r: "ConvergenceMonitor_call c h w = (r, w1)" by fastforce
  from ConvergenceMonitor_call_cases[OF r] a Convergence r show "same_class M M'"
    by (auto split: if_splits sum.splits)
next
  case (Dream d)
  assume a: "call_monitor E cs M h w = (Inr M', w')"
  then show "same_class M M'" using Dream by (auto split: prod.splits)
qed

lemma call_monitor_publishes:
  assumes "call_monitor E cs M h w = (r, w')" and "b \<or> quiet M"
  shows "publishes (not_convergence b) w w'"
proof (cases M)
  case (GUIProgress g)
  then show ?thesis using assms GUIProgressMonitor_call_publishes by auto
next
  case (Convergence c)
  obtain r1 w1 where r: "ConvergenceMonitor_call c h w = (r1, w1)" by fastforce
  then have w1: "w1 = w'" using assms Convergence by (auto split: sum.splits)
  from ConvergenceMonitor_call_cases[OF r] show ?thesis
  proof
    assume "\<exists>e. sample h = Inl e \<and> r1 = Inl e \<and> w1 = w"
    then show ?thesis using w1 by (auto simp: publishes_refl)
  next
    assume "\<exists>t. sample h = Inr t \<and>
        (if cm_rate c > 0 \<and> h_time h \<ge> float_add (cm_time c) (cm_rate c)
         then r1 = Inr (c\<lparr>cm_pop := cm_pop c @ [t], cm_time := h_time h\<rparr>) \<and>
              w1 = w\<lparr>log := log w @ [Put Progress (convergence_event (c\<lparr>cm_pop := cm_pop c @ [t]\<rparr>)), Wake Progress]\<rparr>
         else r1 = Inr (c\<lparr>cm_pop := cm_pop c @ [t]\<rparr>) \<and> w1 = w)"
    then show ?thesis using w1 assms(2) Convergence
      by (auto simp: publishes_iff not_convergence_def split: if_splits)
  qed
next
  case (Dream d)
  obtain d1 w1 where r: "DreamMonitor_call d h w = (d1, w1)" by fastforce
  then have w1: "w1 = w'" using assms Dream by auto
  from DreamMonitor_call_cases[OF r] show ?thesis using w1
    by (auto simp: publishes_iff uncertainty_event_eq not_convergence_def split: if_splits)
qed

lemma call_monitor_preserves:
  assumes "call_monitor E cs M h w = (r, w')" and "n \<le> length (heap w)"
  shows "preserves n w w'"
proof (cases M)
  case (GUIProgress g)
  then show ?thesis using assms GUIProgressMonitor_call_preserves by auto
next
  case (Convergence c)
  obtain r1 w1 where r: "ConvergenceMonitor_call c h w = (r1, w1)" by fastforce
  then have w1: "w1 = w'" using assms Convergence by (auto split: sum.splits)
  from ConvergenceMonitor_call_cases[OF r] show ?thesis using w1
    by (auto simp: preserves_def split: if_splits)
next
  case (Dream d)
  obtain d1 w1 where r: "DreamMonitor_call d h w = (d1, w1)" by fastforce
  then have w1: "w1 = w'" using assms Dream by auto
  from DreamMonitor_call_cases[OF r] show ?thesis using w1 assms(2)
    by (auto simp: preserves_def uncertainty_event_eq split: if_splits)
qed

lemma call_monitors_same:
  "call_monitors E cs Ms h w = (Inr Ms', w') \<Longrightarrow> list_all2 same_class Ms Ms'"
proof (induction Ms arbitrary: w Ms')
  case Nil
  then show ?case by simp
next
  case (Cons M Ms)
  then show ?case
    by (auto split: prod.splits sum.splits dest: call_monitor_same)
qed

lemma call_monitors_publishes:
  "call_monitors E cs Ms h w = (r, w') \<Longrightarrow> b \<or> list_all quiet Ms \<Longrightarrow>
     publishes (not_convergence b) w w'"
proof (induction Ms arbitrary: w r w')
  case Nil
  then show ?case by (simp add: publishes_refl)
next
  case (Cons M Ms)
  obtain r1 w1 where r1: "call_monitor E cs M h w = (r1, w1)" by fastforce
  have p1: "publishes (not_convergence b) w w1"
    using call_monitor_publishes[OF r1] Cons.prems(2) by auto
  show ?case
  proof (cases r1)
    case (Inl e)
    then show ?thesis using Cons.prems r1 p1 by simp
  next
    case (Inr M1)
    obtain r2 w2 where r2: "call_monitors E cs Ms h w1 = (r2, w2)" by fastforce
    have "publishes (not_convergence b) w1 w2"
      using Cons.IH[OF r2] Cons.prems(2) by auto
    moreover have "w' = w2" using Cons.prems(1) r1 r2 Inr by (auto split: sum.splits)
    ultimately show ?thesis using p1 publishes_trans by blast
  qed
qed

lemma call_monitors_preserves:
  "call_monitors E cs Ms h w = (r, w') \<Longrightarrow> n \<le> length (heap w) \<Longrightarrow> preserves n w w'"
proof (induction Ms arbitrary: w r w')
  case Nil
  then show ?case by (simp add: preserves_refl)
next
  case (Cons M Ms)
  obtain r1 w1 where r1: "call_monitor E cs M h w = (r1, w1)" by fastforce
  have p1: "preserves n w w1"
    using call_monitor_preserves[OF r1] Cons.prems(2) by auto
  show ?case
  proof (cases r1)
    case (Inl e)
    then show ?thesis using Cons.prems r1 p1 by simp
  next
    case (Inr M1)
    obtain r2 w2 where r2: "call_monitors E cs Ms h w1 = (r2, w2)" by fastforce
    have "n \<le> length (heap w1)" using p1 Cons.prems(2) by (simp add: preserves_def)
    then have "preserves n w1 w2"
      using Cons.IH[OF r2] by auto
    moreover have "w' = w2" using Cons.prems(1) r1 r2 Inr by (auto split: sum.splits)
    ultimately show ?thesis using p1 preserves_trans by blast
  qed
qed

subsection \<open>The driver\<close>

lemma write_obj_log: "log (write_obj a v w) = log w"
  by (simp add: write_obj_def split: option.splits)

lemma write_obj_preserves: "n \<le> a \<Longrightarrow> preserves n w (write_obj a v w)"
  by (simp add: write_obj_def preserves_def split: option.splits)

lemma write_obj_length: "length (heap (write_obj a v w)) = length (heap w)"
  by (simp add: write_obj_def split: option.splits)

lemma driver_step_log: "log (driver_step D it w) = log w"
  by (simp add: driver_step_def write_obj_log)

lemma driver_step_preserves:
  "n \<le> dr_problem D \<Longrightarrow> n \<le> dr_point D \<Longrightarrow> n \<le> dr_state D \<Longrightarrow>
     preserves n w (driver_step D it w)"
  unfolding driver_step_def
  by (blast intro: preserves_trans write_obj_preserves)

lemma driver_step_length: "length (heap (driver_step D it w)) = length (heap w)"
  by (simp add: driver_step_def write_obj_length)

lemma list_all2_same_class_trans:
  "list_all2 same_class Ms Ms1 \<Longrightarrow> list_all2 same_class Ms1 Ms2 \<Longrightarrow> list_all2 same_class Ms Ms2"
  using list_all2_trans[of same_class same_class same_class] same_class_trans by blast

lemma list_all2_same_class_quiet:
  "list_all2 same_class Ms Ms' \<Longrightarrow> list_all quiet Ms \<Longrightarrow> list_all quiet Ms'"
  by (induction rule: list_all2_induct) (auto dest: same_class_quiet)

lemma fit_loop_same:
  "fit_loop E D its Ms w = (Inr Ms', w') \<Longrightarrow> list_all2 same_class Ms Ms'"
proof (induction its arbitrary: Ms w)
  case Nil
  then show ?case by (simp add: list_all2_refl same_class_refl)
next
  case (Cons it its)
  show ?case
  proof (cases "abort_test (it_abort_queue it)")
    case True
    then show ?thesis using Cons.prems by (simp add: list_all2_refl same_class_refl)
  next
    case False
    obtain r1 w1 where r1: "call_monitors E (it_shows it) Ms (history_of D it) (driver_step D it w) = (r1, w1)"
      by fastforce
    then obtain Ms1 where Ms1: "r1 = Inr Ms1" and rest: "fit_loop E D its Ms1 w1 = (Inr Ms', w')"
      using Cons.prems False by (auto split: sum.splits)
    have "list_all2 same_class Ms Ms1" using call_monitors_same r1 Ms1 by blast
    then show ?thesis using Cons.IH[OF rest] list_all2_same_class_trans by blast
  qed
qed

lemma fit_loop_publishes:
  "fit_loop E D its Ms w = (r, w') \<Longrightarrow> b \<or> list_all quiet Ms \<Longrightarrow>
     publishes (not_convergence b) w w'"
proof (induction its arbitrary: Ms w)
  case Nil
  then show ?case by (simp add: publishes_refl)
next
  case (Cons it its)
  show ?case
  proof (cases "abort_test (it_abort_queue it)")
    case True
    then show ?thesis using Cons.prems by (simp add: publishes_refl)
  next
    case False
    obtain r1 w1 where r1: "call_monitors E (it_shows it) Ms (history_of D it) (driver_step D it w) = (r1, w1)"
      by fastforce
    have "publishes (not_convergence b) (driver_step D it w) w1"
      using call_monitors_publishes[OF r1] Cons.prems(2) by auto
    then have p1: "publishes (not_convergence b) w w1"
      by (simp add: publishes_def driver_step_log)
    show ?thesis
    proof (cases r1)
      case (Inl e)
      then show ?thesis using Cons.prems(1) False r1 p1 by simp
    next
      case (Inr Ms1)
      then have rest: "fit_loop E D its Ms1 w1 = (r, w')"
        using Cons.prems(1) False r1 by simp
      have "list_all2 same_class Ms Ms1" using call_monitors_same r1 Inr by blast
      then have "b \<or> list_all quiet Ms1"
        using Cons.prems(2) list_all2_same_class_quiet by blast
      then show ?thesis using Cons.IH[OF rest] p1 publishes_trans by blast
    qed
  qed
qed

lemma fit_loop_preserves:
  "fit_loop E D its Ms w = (r, w') \<Longrightarrow> n \<le> length (heap w) \<Longrightarrow>
     n \<le> dr_problem D \<Longrightarrow> n \<le> dr_point D \<Longrightarrow> n \<le> dr_state D \<Longrightarrow> preserves n w w'"
proof (induction its arbitrary: Ms w)
  case Nil
  then show ?case by (simp add: preserves_refl)
next
  case (Cons it its)
  show ?case
  proof (cases "abort_test (it_abort_queue it)")
    case True
    then show ?thesis using Cons.prems by (simp add: preserves_refl)
  next
    case False
    obtain r1 w1 where r1: "call_monitors E (it_shows it) Ms (history_of D it) (driver_step D it w) = (r1, w1)"
      by fastforce
    have p0: "preserves n w (driver_step D it w)"
      using driver_step_preserves Cons.prems by blast
    have "preserves n (driver_step D it w) w1"
      using call_monitors_preserves[OF r1] Cons.prems(2) by (simp add: driver_step_length)
    then have p1: "preserves n w w1" using p0 preserves_trans by blast
    show ?thesis
    proof (cases r1)
      case (Inl e)
      then show ?thesis using Cons.prems(1) False r1 p1 by simp
    next
      case (Inr Ms1)
      then have rest: "fit_loop E D its Ms1 w1 = (r, w')"
        using Cons.prems(1) False r1 by simp
      have "n \<le> length (heap w1)" using p1 Cons.prems(2) by (simp add: preserves_def)
      then show ?thesis using Cons.IH[OF rest] Cons.prems p1 preserves_trans by blast
    qed
  qed
qed

subsection \<open>The run\<close>

lemma make_driver_eq:
  "make_driver E T w =
     (\<lparr>dr_fitclass = ft_fitclass T, dr_problem = length (heap w),
       dr_mapper = (if can_pickle E (heap w ! ft_problem T) then MPMapper else SerialMapper),
       dr_point = Suc (length (heap w)), dr_state = Suc (Suc (length (heap w)))\<rparr>,
      w\<lparr>heap := heap w @ [heap w ! ft_problem T, [], []]\<rparr>)"
  by (simp add: make_driver_def deepcopy_def alloc_def FitDriver_init_def Let_def)

lemma fit_cases:
  "fit E D S Ms w = (r, w') \<Longrightarrow>
     (\<exists>e. r = Inl e \<and> fit_loop E D (iterations S) Ms w = (Inl e, w')) \<or>
     (\<exists>Ms1. r = Inl FitError \<and> ending S = Raises \<and> fit_loop E D (iterations S) Ms w = (Inr Ms1, w')) \<or>
     (\<exists>Ms1 w1 x fx. r = Inr (Ms1, x, fx) \<and> ending S = Returns x fx \<and>
        fit_loop E D (iterations S) Ms w = (Inr Ms1, w1) \<and>
        w' = write_obj (dr_problem D) (last_problem S) w1)"
  by (auto simp: fit_def split: prod.splits sum.splits fit_end.splits)

lemma fit_publishes:
  assumes "fit E D S Ms w = (r, w')" and "b \<or> list_all quiet Ms"
  shows "publishes (not_convergence b) w w'"
  using fit_cases[OF assms(1)] fit_loop_publishes assms(2)
  by (auto simp: publishes_def write_obj_log) blast+

lemma fit_preserves:
  assumes "fit E D S Ms w = (r, w')" and "n \<le> length (heap w)"
    and "n \<le> dr_problem D" and "n \<le> dr_point D" and "n \<le> dr_state D"
  shows "preserves n w w'"
proof -
  from fit_cases[OF assms(1)] consider
    (a) r1 where "fit_loop E D (iterations S) Ms w = (r1, w')"
    | (b) Ms1 w1 where "fit_loop E D (iterations S) Ms w = (Inr Ms1, w1)"
        "w' = write_obj (dr_problem D) (last_problem S) w1"
    by blast
  then show ?thesis
  proof cases
    case a
    then show ?thesis using fit_loop_preserves assms by blast
  next
    case b
    have "preserves n w w1" using fit_loop_preserves b(1) assms by blast
    moreover have "preserves n w1 w'" using b(2) write_obj_preserves assms(3) by blast
    ultimately show ?thesis using preserves_trans by blast
  qed
qed

lemma fit_same:
  "fit E D S Ms w = (Inr (Ms', x, fx), w') \<Longrightarrow> list_all2 same_class Ms Ms'"
  using fit_cases[of E D S Ms w "Inr (Ms', x, fx)" w'] fit_loop_same by auto

lemma same_class_chain:
  assumes "list_all2 same_class (make_monitors T) Ms"
  obtains g c d where "Ms = [GUIProgress g, Convergence c, Dream d]"
    and "cm_message c = ''convergence_update''" and "cm_rate c = ft_convergence_update T"
proof -
  from assms obtain M0 M1 M2 where Ms: "Ms = [M0, M1, M2]"
    and s0: "same_class (GUIProgress (GUIProgressMonitor_init (ft_problem T) None None)) M0"
    and s1: "same_class (Convergence (ConvergenceMonitor_init (ft_problem T) ''convergence_update''
                    (ft_convergence_update T))) M1"
    and s2: "same_class (Dream (DreamMonitor_init (ft_problem T) ''uncertainty_update'' (ft_fitclass T)
               (ft_uncertainty_update T))) M2"
    by (auto simp: make_monitors_def list_all2_Cons1)
  from s0 obtain g where "M0 = GUIProgress g" by (cases M0) auto
  moreover from s1 obtain c where "M1 = Convergence c" "cm_message c = ''convergence_update''"
      "cm_rate c = ft_convergence_update T"
    by (cases M1) (auto simp: ConvergenceMonitor_init_def)
  moreover from s2 obtain d where "M2 = Dream d" by (cases M2) auto
  ultimately show ?thesis using that Ms by blast
qed

lemma DreamMonitor_final_log:
  "\<exists>new. log (DreamMonitor_final d w) = log w @ new \<and> pubs (\<lambda>e. True) new"
  by (cases "dm_uncertainty_state d") (auto simp: DreamMonitor_final_def uncertainty_event_eq)

lemma DreamMonitor_final_preserves:
  "n \<le> length (heap w) \<Longrightarrow> preserves n w (DreamMonitor_final d w)"
  by (cases "dm_uncertainty_state d") (auto simp: DreamMonitor_final_def uncertainty_event_eq preserves_def)

lemma final_monitors_chain:
  "\<exists>new. log (final_monitors E 0 [GUIProgress g, Convergence c, Dream d] w) =
      log w @ (if timed_update_has_final E then [Final 0] else []) @
        [Final 1, Put Progress (convergence_event c), Wake Progress, Final 2] @ new \<and>
      pubs (\<lambda>e. True) new"
proof -
  let ?pre = "(if timed_update_has_final E then [Final 0] else []) @
        [Final 1, Put Progress (convergence_event c), Wake Progress, Final 2]"
  let ?w1 = "w\<lparr>log := log w @ ?pre\<rparr>"
  obtain new where new: "log (DreamMonitor_final d ?w1) = log ?w1 @ new" "pubs (\<lambda>e. True) new"
    using DreamMonitor_final_log by blast
  have "final_monitors E 0 [GUIProgress g, Convergence c, Dream d] w = DreamMonitor_final d ?w1"
    by (simp add: ConvergenceMonitor_final_def send_progress_eq numeral_2_eq_2)
  then show ?thesis using new by auto
qed

lemma final_monitors_preserves:
  "n \<le> length (heap w) \<Longrightarrow> preserves n w (final_monitors E i Ms w)"
proof (induction E i Ms w rule: final_monitors.induct)
  case (1 E i w)
  then show ?case by (simp add: preserves_refl)
next
  case (2 E i M Ms w)
  show ?case
  proof (cases "has_final E M")
    case False
    then show ?thesis using 2 by simp
  next
    case True
    let ?w1 = "final M (w\<lparr>log := log w @ [Final i]\<rparr>)"
    have p: "preserves n w ?w1"
      using "2.prems" DreamMonitor_final_preserves[of n "w\<lparr>log := log w @ [Final i]\<rparr>"]
      by (cases M) (auto simp: preserves_def ConvergenceMonitor_final_def send_progress_eq)
    then have "n \<le> length (heap ?w1)" using "2.prems" by (simp add: preserves_def)
    then have "preserves n ?w1 (final_monitors E (Suc i) Ms ?w1)" using 2 True by simp
    then show ?thesis using p True preserves_trans by auto
  qed
qed

subsection \<open>The convergence monitor\<close>

lemma floor_fifth: "\<lfloor>real n / 5\<rfloor> = int (n div 5)"
  using floor_divide_of_nat_eq[of n 5] by simp

lemma floor_half: "\<lfloor>real n / 2\<rfloor> = int (n div 2)"
  using floor_divide_of_nat_eq[of n 2] by simp

lemma py_index_nat: "i < length xs \<Longrightarrow> py_index xs (int i) = Inr (xs ! i)"
  by (simp add: py_index_def)

lemma py_index_neg:
  "i < length xs \<Longrightarrow> py_index xs (- 1 - int i) = Inr (xs ! (length xs - 1 - i))"
  by (auto simp add: py_index_def Let_def nat_diff_distrib intro!: arg_cong[where f="nth xs"])

lemma sample_pop:
  assumes "h_population_values h = Some pop" "pop \<noteq> []"
  shows "sample h = Inr [h_value h, sort pop ! 0, sort pop ! (length pop div 5),
     sort pop ! (length pop div 2), sort pop ! (length pop - 1 - length pop div 5),
     sort pop ! (length pop - 1)]"
proof -
  let ?p = "sort pop" and ?n = "length pop"
  have n: "0 < ?n" using assms by simp
  have a: "py_index ?p 0 = Inr (?p ! 0)" using py_index_nat[of 0 ?p] n by simp
  have b: "py_index ?p (int (?n div 5)) = Inr (?p ! (?n div 5))"
    using n by (intro py_index_nat) simp
  have c: "py_index ?p (int (?n div 2)) = Inr (?p ! (?n div 2))"
    using n by (intro py_index_nat) simp
  have d: "py_index ?p (- 1 - int (?n div 5)) = Inr (?p ! (?n - 1 - ?n div 5))"
    using py_index_neg[of "?n div 5" ?p] n by simp
  have e: "py_index ?p (- 1) = Inr (?p ! (?n - 1))"
    using py_index_neg[of 0 ?p] n by simp
  show ?thesis
    using assms(1) a b c d e by (simp add: sample_def Let_def floor_fifth floor_half)
qed

lemma sample_no_pop: "h_population_values h = None \<Longrightarrow> sample h = Inr [h_value h]"
  by (simp add: sample_def)

lemma ConvergenceMonitor_call_pop:
  "sample h = Inr t \<Longrightarrow>
     \<exists>M' w'. ConvergenceMonitor_call M h w = (Inr M', w') \<and> cm_pop M' = cm_pop M @ [t]"
  by (simp add: ConvergenceMonitor_call_def Let_def)

text \<open>
  C2: for a non-empty population of size n, the tuple that \<^verbatim>\<open>ConvergenceMonitor.__call__\<close>
  appends is the best value followed by the elements of the sorted population at
  0, floor(0.2n), floor(0.5n), n-1-floor(0.2n) and n-1; for the population [5,3,9,1,7]
  it is (best,1,3,5,7,9).
\<close>

theorem convergence_quantile_tuple:
  assumes "h_population_values h = Some pop" and "pop \<noteq> []"
  shows "(let n = length pop; sorted = sort pop;
              t = [h_value h, sorted ! 0, sorted ! nat \<lfloor>0.2 * real n\<rfloor>,
                   sorted ! nat \<lfloor>0.5 * real n\<rfloor>, sorted ! (n - 1 - nat \<lfloor>0.2 * real n\<rfloor>),
                   sorted ! (n - 1)]
          in sample h = Inr t \<and>
             (\<exists>M' w'. ConvergenceMonitor_call M h w = (Inr M', w') \<and> cm_pop M' = cm_pop M @ [t])) \<and>
         sample (h\<lparr>h_population_values := Some [5, 3, 9, 1, 7]\<rparr>) = Inr [h_value h, 1, 3, 5, 7, 9]"
proof -
  have "sample (h\<lparr>h_population_values := Some [5, 3, 9, 1, 7]\<rparr>) = Inr [h_value h, 1, 3, 5, 7, 9]"
    by (simp add: sample_def Let_def py_index_def)
  then show ?thesis
    using sample_pop[OF assms] ConvergenceMonitor_call_pop[of h _ M w]
    by (simp add: Let_def floor_fifth floor_half)
qed

theorem convergence_quantile_tuple_witness:
  "h_population_values example_history = Some [5, 3, 9, 1, 7] \<and> [5, 3, 9, 1, 7] \<noteq> ([] :: real list) \<and>
   sample example_history = Inr [h_value example_history, 1, 3, 5, 7, 9]"
  using convergence_quantile_tuple[of example_history "[5, 3, 9, 1, 7]"]
  by (simp add: example_history_def)

subsection \<open>The array of the convergence monitor\<close>

lemma rows_np_array: "rows (np_array rs) = rs"
  by (simp add: np_array_def split: list.splits)

lemma rows_progress: "rows (progress M) = cm_pop M"
  by (simp add: progress_def rows_np_array)

lemma ConvergenceMonitor_final_eq:
  "ConvergenceMonitor_final M w =
     w\<lparr>log := log w @
       [Put Progress [(''problem'', PRef (cm_problem M)), (''message'', PStr (cm_message M)),
          (''pop'', PArray (progress M))],
        Wake Progress]\<rparr>"
  by (simp add: ConvergenceMonitor_final_def convergence_event_def send_progress_eq)

text \<open>
  C10: \<^verbatim>\<open>ConvergenceMonitor.progress\<close> is the empty float array of shape (0, 1) when no
  sample is recorded and otherwise the array whose rows are the accumulated tuples, so
  \<^verbatim>\<open>final\<close> always publishes one event with an array as its \<^verbatim>\<open>pop\<close>, also for a
  monitor that was never called.
\<close>

theorem convergence_progress_array:
  "progress (M\<lparr>cm_pop := []\<rparr>) = FloatArray [0, 1] [] \<and>
   progress (M\<lparr>cm_pop := t # ts\<rparr>) = np_array (t # ts) \<and>
   rows (progress M) = cm_pop M \<and>
   ConvergenceMonitor_final M w =
     w\<lparr>log := log w @
       [Put Progress [(''problem'', PRef (cm_problem M)), (''message'', PStr (cm_message M)),
          (''pop'', PArray (progress M))],
        Wake Progress]\<rparr> \<and>
   queue Progress (log (ConvergenceMonitor_final (ConvergenceMonitor_init p msg r) w)) =
     queue Progress (log w) @
       [[(''problem'', PRef p), (''message'', PStr msg), (''pop'', PArray (FloatArray [0, 1] []))]]"
  by (simp add: rows_progress ConvergenceMonitor_final_eq queue_append)
     (simp add: progress_def ConvergenceMonitor_init_def)

theorem convergence_progress_array_witness:
  "cm_pop (ConvergenceMonitor_init 0 ''convergence_update'' 0) = [] \<and>
   progress (ConvergenceMonitor_init 0 ''convergence_update'' 0) = FloatArray [0, 1] [] \<and>
   queue Progress (log (ConvergenceMonitor_final (ConvergenceMonitor_init 0 ''convergence_update'' 0)
      example_world)) =
     [[(''problem'', PRef 0), (''message'', PStr ''convergence_update''),
       (''pop'', PArray (FloatArray [0, 1] []))]]"
  using convergence_progress_array[of "ConvergenceMonitor_init 0 ''convergence_update'' 0"
      "[]" "[]" example_world 0 "''convergence_update''" 0]
  by (simp add: ConvergenceMonitor_init_def example_world_def)

subsection \<open>Cadence\<close>

lemma ConvergenceMonitor_call_emits:
  "ConvergenceMonitor_call M h w = (Inr M', w') \<Longrightarrow>
     cm_rate M' = cm_rate M \<and>
     (if log w' = log w then cm_time M' = cm_time M
      else 0 < cm_rate M \<and> float_add (cm_time M) (cm_rate M) \<le> h_time h \<and>
           cm_time M' = h_time h)"
  using ConvergenceMonitor_call_cases[of M h w "Inr M'" w']
  by (auto split: if_splits)

lemma convergence_emissions_first:
  "convergence_emissions M hws = t # ts \<Longrightarrow> float_add (cm_time M) (cm_rate M) \<le> t"
proof (induction hws arbitrary: M)
  case Nil
  then show ?case by simp
next
  case (Cons hw hws)
  obtain h w where hw: "hw = (h, w)" by (cases hw)
  obtain r w1 where r: "ConvergenceMonitor_call M h w = (r, w1)" by fastforce
  then obtain M1 where M1: "r = Inr M1" using Cons.prems hw by (cases r) auto
  note e = ConvergenceMonitor_call_emits[OF r[unfolded M1]]
  show ?case
  proof (cases "log w1 = log w")
    case True
    then have "convergence_emissions M1 hws = t # ts" using Cons.prems by (simp add: hw r M1)
    then show ?thesis using Cons.IH[of M1] e True by simp
  next
    case False
    then have "t = h_time h" using Cons.prems by (simp add: hw r M1)
    then show ?thesis using e False by simp
  qed
qed

lemma convergence_emissions_spaced:
  "successively (\<lambda>s t. float_add s (cm_rate M) \<le> t) (convergence_emissions M hws)"
proof (induction hws arbitrary: M)
  case Nil
  then show ?case by simp
next
  case (Cons hw hws)
  obtain h w where hw: "hw = (h, w)" by (cases hw)
  obtain r w1 where r: "ConvergenceMonitor_call M h w = (r, w1)" by fastforce
  show ?case
  proof (cases r)
    case (Inl e)
    then show ?thesis by (simp add: hw r)
  next
    case (Inr M1)
    note e = ConvergenceMonitor_call_emits[OF r[unfolded Inr]]
    have ih: "successively (\<lambda>s t. float_add s (cm_rate M) \<le> t) (convergence_emissions M1 hws)"
      using Cons.IH[of M1] e by simp
    show ?thesis
    proof (cases "log w1 = log w")
      case True
      then show ?thesis using ih by (simp add: hw r Inr)
    next
      case False
      have eq: "convergence_emissions M (hw # hws) = h_time h # convergence_emissions M1 hws"
        using False by (simp add: hw r Inr)
      show ?thesis
      proof (cases "convergence_emissions M1 hws")
        case Nil
        then show ?thesis by (simp add: eq)
      next
        case (Cons t ts)
        then have "float_add (h_time h) (cm_rate M) \<le> t"
          using convergence_emissions_first[of M1 hws t ts] e False by simp
        then show ?thesis using ih Cons by (simp add: eq)
      qed
    qed
  qed
qed

lemma DreamMonitor_call_emits:
  "DreamMonitor_call M h w = (M', w') \<Longrightarrow>
     dm_rate M' = dm_rate M \<and>
     (if log w' = log w then dm_time M' = dm_time M
      else 0 < dm_rate M \<and> float_add (dm_time M) (dm_rate M) \<le> h_time h \<and>
           dm_time M' = h_time h)"
  using DreamMonitor_call_cases[of M h w M' w']
  by (auto simp: uncertainty_event_eq split: if_splits)

lemma dream_emissions_first:
  "dream_emissions M hws = t # ts \<Longrightarrow> float_add (dm_time M) (dm_rate M) \<le> t"
proof (induction hws arbitrary: M)
  case Nil
  then show ?case by simp
next
  case (Cons hw hws)
  obtain h w where hw: "hw = (h, w)" by (cases hw)
  obtain M1 w1 where r: "DreamMonitor_call M h w = (M1, w1)" by fastforce
  note e = DreamMonitor_call_emits[OF r]
  show ?case
  proof (cases "log w1 = log w")
    case True
    then have "dream_emissions M1 hws = t # ts" using Cons.prems by (simp add: hw r)
    then show ?thesis using Cons.IH[of M1] e True by simp
  next
    case False
    then have "t = h_time h" using Cons.prems by (simp add: hw r)
    then show ?thesis using e False by simp
  qed
qed

lemma dream_emissions_spaced:
  "successively (\<lambda>s t. float_add s (dm_rate M) \<le> t) (dream_emissions M hws)"
proof (induction hws arbitrary: M)
  case Nil
  then show ?case by simp
next
  case (Cons hw hws)
  obtain h w where hw: "hw = (h, w)" by (cases hw)
  obtain M1 w1 where r: "DreamMonitor_call M h w = (M1, w1)" by fastforce
  note e = DreamMonitor_call_emits[OF r]
  have ih: "successively (\<lambda>s t. float_add s (dm_rate M) \<le> t) (dream_emissions M1 hws)"
    using Cons.IH[of M1] e by simp
  show ?case
  proof (cases "log w1 = log w")
    case True
    then show ?thesis using ih by (simp add: hw r)
  next
    case False
    have eq: "dream_emissions M (hw # hws) = h_time h # dream_emissions M1 hws"
      using False by (simp add: hw r)
    show ?thesis
    proof (cases "dream_emissions M1 hws")
      case Nil
      then show ?thesis by (simp add: eq)
    next
      case (Cons t ts)
      then have "float_add (h_time h) (dm_rate M) \<le> t"
        using dream_emissions_first[of M1 hws t ts] e False by simp
      then show ?thesis using ih Cons by (simp add: eq)
    qed
  qed
qed

lemma spaced_lower:
  "successively (\<lambda>s t. float_add s r \<le> t) ts \<Longrightarrow>
     successively (\<lambda>s t. float_add s r \<le> t \<and> r - ulp (s + r) / 2 \<le> t - s) ts"
  by (erule successively_mono) (simp add: float_add_lower)

text \<open>
  C6, as amended: with a rate r above zero, of two successive publications from
  \<^verbatim>\<open>ConvergenceMonitor.__call__\<close>, and of two from \<^verbatim>\<open>DreamMonitor.__call__\<close>, the
  \<^verbatim>\<open>history.time[0]\<close> of the later is at least the double sum of that of the earlier
  and r; the time between them is at least r less half the distance of neighbouring
  doubles at the exact sum.
\<close>

theorem emissions_spaced_by_float_sum:
  assumes "0 < cm_rate C" and "0 < dm_rate D"
  shows "successively (\<lambda>s t. float_add s (cm_rate C) \<le> t \<and>
             cm_rate C - ulp (s + cm_rate C) / 2 \<le> t - s)
           (convergence_emissions C hws) \<and>
         successively (\<lambda>s t. float_add s (dm_rate D) \<le> t \<and>
             dm_rate D - ulp (s + dm_rate D) / 2 \<le> t - s)
           (dream_emissions D hws')"
  using convergence_emissions_spaced[of C hws] dream_emissions_spaced[of D hws'] spaced_lower
  by blast

theorem emissions_spaced_by_float_sum_witness:
  "0 < cm_rate (ConvergenceMonitor_init 0 ''convergence_update'' 2) \<and>
   0 < dm_rate (DreamMonitor_init 0 ''uncertainty_update'' ''dream'' 2) \<and>
   convergence_emissions (ConvergenceMonitor_init 0 ''convergence_update'' 2) timed_histories = [2, 5] \<and>
   dream_emissions (DreamMonitor_init 0 ''uncertainty_update'' ''dream'' 2) timed_histories = [2, 5] \<and>
   successively (\<lambda>s t. float_add s 2 \<le> t \<and> 2 - ulp (s + 2) / 2 \<le> t - s)
     (convergence_emissions (ConvergenceMonitor_init 0 ''convergence_update'' 2) timed_histories) \<and>
   successively (\<lambda>s t. float_add s 2 \<le> t \<and> 2 - ulp (s + 2) / 2 \<le> t - s)
     (dream_emissions (DreamMonitor_init 0 ''uncertainty_update'' ''dream'' 2) timed_histories)"
proof -
  have c: "convergence_emissions (ConvergenceMonitor_init 0 ''convergence_update'' 2) timed_histories = [2, 5]"
    by (simp add: timed_histories_def example_history_def example_world_def
        ConvergenceMonitor_init_def ConvergenceMonitor_call_def sample_def py_index_def
        send_progress_eq Let_def float_add_small)
  have d: "dream_emissions (DreamMonitor_init 0 ''uncertainty_update'' ''dream'' 2) timed_histories = [2, 5]"
    by (simp add: timed_histories_def example_history_def example_world_def
        DreamMonitor_init_def DreamMonitor_call_def uncertainty_event_eq Let_def float_add_small)
  have r: "cm_rate (ConvergenceMonitor_init 0 ''convergence_update'' 2) = 2"
     "dm_rate (DreamMonitor_init 0 ''uncertainty_update'' ''dream'' 2) = 2"
    by (simp_all add: ConvergenceMonitor_init_def DreamMonitor_init_def)
  have p: "0 < cm_rate (ConvergenceMonitor_init 0 ''convergence_update'' 2)"
     "0 < dm_rate (DreamMonitor_init 0 ''uncertainty_update'' ''dream'' 2)"
    by (simp_all add: r)
  from emissions_spaced_by_float_sum[OF p, of timed_histories timed_histories] p c d
  show ?thesis unfolding r by blast
qed

text \<open>
  C6 as stated fails: at rate 0.1 a monitor publishes at time 0.7 and again at time
  0.7999999999999999, because the double sum of 0.7 and 0.1 is 0.7999999999999999; the
  two times are less than the rate apart.
\<close>

theorem cadence_rounding_counterexample:
  "0 < tenth \<and>
   convergence_emissions (ConvergenceMonitor_init 0 ''convergence_update'' tenth) close_histories =
     [seven_tenths, almost_eight_tenths] \<and>
   dream_emissions (DreamMonitor_init 0 ''uncertainty_update'' ''dream'' tenth) close_histories =
     [seven_tenths, almost_eight_tenths] \<and>
   almost_eight_tenths - seven_tenths < tenth"
proof -
  have a: "float_add 0 tenth = tenth"
    by (simp add: tenth_def float_eval)
  have b: "float_add seven_tenths tenth = almost_eight_tenths"
    by (simp add: tenth_def seven_tenths_def almost_eight_tenths_def float_eval)
  have t: "0 < tenth" "tenth \<le> seven_tenths" "almost_eight_tenths - seven_tenths < tenth"
    by (simp_all add: tenth_def seven_tenths_def almost_eight_tenths_def)
  have c: "convergence_emissions (ConvergenceMonitor_init 0 ''convergence_update'' tenth) close_histories =
     [seven_tenths, almost_eight_tenths]"
    using t(1,2)
    by (simp add: close_histories_def example_history_def example_world_def
        ConvergenceMonitor_init_def ConvergenceMonitor_call_def sample_def py_index_def
        send_progress_eq Let_def a b)
  have d: "dream_emissions (DreamMonitor_init 0 ''uncertainty_update'' ''dream'' tenth) close_histories =
     [seven_tenths, almost_eight_tenths]"
    using t(1,2)
    by (simp add: close_histories_def example_history_def example_world_def
        DreamMonitor_init_def DreamMonitor_call_def uncertainty_event_eq Let_def a b)
  from t(1) c d t(3) show ?thesis by (intro conjI)
qed

subsection \<open>The whole run\<close>

lemma new_log_append: "log w' = log w @ new \<Longrightarrow> new_log w w' = new"
  by (simp add: new_log_def)

lemma publishes_new_log: "publishes Q w w' \<Longrightarrow> log w' = log w @ new_log w w' \<and> pubs Q (new_log w w')"
  by (auto simp: publishes_iff new_log_def)

lemma run_fit_publishes:
  assumes "b \<or> ft_convergence_update T \<le> 0"
  shows "publishes (not_convergence b) w (snd (run_fit E T S w))"
proof -
  obtain D w1 where md: "make_driver E T w = (D, w1)" by fastforce
  obtain r w2 where f: "fit E D S (make_monitors T) w1 = (r, w2)" by fastforce
  have q: "b \<or> list_all quiet (make_monitors T)"
    using assms by (auto simp: make_monitors_def ConvergenceMonitor_init_def)
  have "log w1 = log w" using md by (auto simp: make_driver_eq)
  moreover have "publishes (not_convergence b) w1 w2" using fit_publishes[OF f q] .
  ultimately have "publishes (not_convergence b) w w2" by (simp add: publishes_def)
  then show ?thesis using md f by (simp add: run_fit_def)
qed

lemma run_fit_preserves:
  assumes "n \<le> length (heap w)"
  shows "preserves n w (snd (run_fit E T S w))"
proof -
  obtain D w1 where md: "make_driver E T w = (D, w1)" by fastforce
  obtain r w2 where f: "fit E D S (make_monitors T) w1 = (r, w2)" by fastforce
  have D: "dr_problem D = length (heap w)" "dr_point D = Suc (length (heap w))"
      "dr_state D = Suc (Suc (length (heap w)))"
    and w1: "heap w1 = heap w @ [heap w ! ft_problem T, [], []]"
    using md by (auto simp: make_driver_eq)
  have p1: "preserves n w w1" using w1 assms by (simp add: preserves_def)
  have "preserves n w1 w2"
    using fit_preserves[OF f, of n] assms D w1 by simp
  then have "preserves n w w2" using p1 preserves_trans by blast
  then show ?thesis using md f by (simp add: run_fit_def)
qed

lemma run_fit_same:
  "run_fit E T S w = (Inr (Ms, x, fx), w2) \<Longrightarrow>
     list_all2 same_class (make_monitors T) Ms \<and> ending S = Returns x fx"
  using fit_same fit_cases
  by (fastforce simp: run_fit_def Let_def split: prod.splits)

lemma run_raises: "run_fit E T S w = (Inl e, w2) \<Longrightarrow> run E T S w = (Inl e, w2)"
  by (simp add: run_def)

lemma run_returns:
  assumes "run_fit E T S w = (Inr (Ms, x, fx), w2)"
  shows "\<exists>c new w'. run E T S w = (Inr (complete_event T x fx (show_output S)), w') \<and>
     cm_message c = ''convergence_update'' \<and> pubs (\<lambda>e. True) new \<and>
     log w' = log w2 @ (if timed_update_has_final E then [Final 0] else []) @
        [Final 1, Put Progress (convergence_event c), Wake Progress, Final 2] @ new @
        [Put Complete (complete_event T x fx (show_output S)), Wake Complete]"
proof -
  from run_fit_same[OF assms] obtain g c d where Ms: "Ms = [GUIProgress g, Convergence c, Dream d]"
    and c: "cm_message c = ''convergence_update''"
    using same_class_chain by blast
  obtain new where new: "log (final_monitors E 0 Ms w2) =
      log w2 @ (if timed_update_has_final E then [Final 0] else []) @
        [Final 1, Put Progress (convergence_event c), Wake Progress, Final 2] @ new"
      "pubs (\<lambda>e. True) new"
    using final_monitors_chain[of E g c d w2] Ms by blast
  let ?evt = "complete_event T x fx (show_output S)"
  have "run E T S w = (Inr ?evt, send_complete ?evt (final_monitors E 0 Ms w2))"
    using assms by (simp add: run_def Let_def)
  moreover have "log (send_complete ?evt (final_monitors E 0 Ms w2)) =
      log w2 @ (if timed_update_has_final E then [Final 0] else []) @
        [Final 1, Put Progress (convergence_event c), Wake Progress, Final 2] @ new @
        [Put Complete ?evt, Wake Complete]"
    using new(1) by (simp add: send_complete_eq)
  ultimately show ?thesis using c new(2) by blast
qed

lemma run_preserves:
  assumes "n \<le> length (heap w)"
  shows "preserves n w (snd (run E T S w))"
proof -
  obtain r w2 where f: "run_fit E T S w = (r, w2)" by fastforce
  have p: "preserves n w w2" using run_fit_preserves[OF assms, of E T S] f by simp
  show ?thesis
  proof (cases r)
    case (Inl e)
    then show ?thesis using f p by (simp add: run_def)
  next
    case (Inr v)
    obtain Ms x fx where v: "v = (Ms, x, fx)" by (cases v)
    have "n \<le> length (heap w2)" using p assms by (simp add: preserves_def)
    then have "preserves n w2 (final_monitors E 0 Ms w2)" by (rule final_monitors_preserves)
    then have "preserves n w2 (snd (run E T S w))"
      using f Inr v by (simp add: run_def Let_def send_complete_eq preserves_def)
    then show ?thesis using p preserves_trans by blast
  qed
qed

subsection \<open>The example jobs\<close>

lemmas job_defs =
  run_def run_fit_def make_monitors_def make_driver_eq fit_def Let_def abort_test_def
  history_of_def driver_step_def write_obj_def GUIProgressMonitor_init_def
  ConvergenceMonitor_init_def DreamMonitor_init_def or_default_def show_progress_eq
  show_improvement_eq ConvergenceMonitor_call_def sample_def py_index_def DreamMonitor_call_def
  ConvergenceMonitor_final_eq DreamMonitor_final_def uncertainty_event_eq send_progress_eq
  send_complete_eq convergence_event_def progress_def np_array_def complete_event_def
  example_env_def example_world_def example_thread_def example_script_def failing_script_def
  example_iteration_def new_log_def float_add_small

lemma example_run_fit:
  "run_fit example_env example_thread example_script example_world =
     (Inr ([GUIProgress \<lparr>gp_progress = 5, gp_improvement = 5, gp_problem = 0\<rparr>,
            Convergence \<lparr>cm_time = 0, cm_rate = 0, cm_problem = 0,
              cm_message = ''convergence_update'',
              cm_pop = [[1, 1, 3, 5, 7, 9], [1, 1, 3, 5, 7, 9], [1, 1, 3, 5, 7, 9],
                        [1, 1, 3, 5, 7, 9], [1, 1, 3, 5, 7, 9]]\<rparr>,
            Dream \<lparr>dm_time = 0, dm_rate = 300, dm_problem = 0, dm_fitter = ''amoeba'',
              dm_message = ''uncertainty_update'', dm_uncertainty_state = None\<rparr>],
           PVec [5, 1], PFloat 1),
      snd (run_fit example_env example_thread example_script example_world))"
  by (simp add: job_defs PROGRESS_DELAY_def IMPROVEMENT_DELAY_def)

lemma example_run:
  "run example_env example_thread example_script example_world =
     (Inr [(''message'', PStr ''complete''), (''problem'', PRef 0), (''point'', PVec [5, 1]),
           (''value'', PFloat 1), (''info'', PStr ''chisq 1.0'')],
      snd (run example_env example_thread example_script example_world))"
  by (simp add: job_defs)

lemma example_run_heap:
  "heap (snd (run example_env example_thread example_script example_world)) ! 0 = [0, 0] \<and>
   heap (snd (run example_env example_thread example_script example_world)) ! 1 = [5, 1]"
  by (simp add: job_defs)

lemma example_run_queues:
  "queue Complete (log (snd (run example_env example_thread example_script example_world))) =
     [[(''message'', PStr ''complete''), (''problem'', PRef 0), (''point'', PVec [5, 1]),
           (''value'', PFloat 1), (''info'', PStr ''chisq 1.0'')]] \<and>
   finals (log (snd (run example_env example_thread example_script example_world))) = [1, 2] \<and>
   length (queue Progress (log (snd (run example_env example_thread example_script example_world)))) = 11"
  by (simp add: job_defs)

lemma failing_run:
  "fst (run example_env example_thread failing_script example_world) = Inl FitError \<and>
   queue Complete (log (snd (run example_env example_thread failing_script example_world))) = [] \<and>
   finals (log (snd (run example_env example_thread failing_script example_world))) = [] \<and>
   length (queue Progress (log (snd (run example_env example_thread failing_script example_world)))) = 2"
  by (simp add: job_defs)

subsection \<open>Publication\<close>

lemma run_log:
  "\<exists>new. log (snd (run E T S w)) = log w @ new \<and> every_put_woken new"
proof -
  obtain r w2 where f: "run_fit E T S w = (r, w2)" by fastforce
  have "publishes (not_convergence True) w w2"
    using run_fit_publishes[of True T w E S] f by simp
  then obtain fl where fl: "log w2 = log w @ fl" "pubs (not_convergence True) fl"
    by (auto simp: publishes_iff)
  show ?thesis
  proof (cases r)
    case (Inl e)
    then show ?thesis using f fl pubs_woken by (auto simp: run_def)
  next
    case (Inr v)
    obtain Ms x fx where v: "v = (Ms, x, fx)" by (cases v)
    from run_returns[of E T S w Ms x fx w2] f Inr v
    obtain c new w' where r: "run E T S w = (Inr (complete_event T x fx (show_output S)), w')"
      "pubs (\<lambda>e. True) new"
      "log w' = log w2 @ (if timed_update_has_final E then [Final 0] else []) @
        [Final 1, Put Progress (convergence_event c), Wake Progress, Final 2] @ new @
        [Put Complete (complete_event T x fx (show_output S)), Wake Complete]"
      by auto
    let ?rest = "(if timed_update_has_final E then [Final 0] else []) @
        [Final 1, Put Progress (convergence_event c), Wake Progress, Final 2] @ new @
        [Put Complete (complete_event T x fx (show_output S)), Wake Complete]"
    have "every_put_woken (new @ [Put Complete (complete_event T x fx (show_output S)), Wake Complete])"
      using pubs_woken[OF r(2)] by (intro every_put_woken_append) auto
    then have "every_put_woken ?rest" by simp
    then have "every_put_woken (fl @ ?rest)"
      using pubs_woken[OF fl(2)] every_put_woken_append by blast
    moreover have "log w' = log w @ fl @ ?rest" using r(3) fl(1) by simp
    ultimately show ?thesis using r(1) by auto
  qed
qed

text \<open>
  C8: \<^verbatim>\<open>send_progress\<close> and \<^verbatim>\<open>send_complete\<close> put the event on their queue and then
  wake the loop of that queue, in this order; in what a run adds to the log, every event
  put on a queue is followed at once by the wake of that queue.
\<close>

theorem publication_wakes_consumer:
  "log (send_progress evt w) = log w @ [Put Progress evt, Wake Progress] \<and>
   log (send_complete evt w) = log w @ [Put Complete evt, Wake Complete] \<and>
   log (snd (run E T S w)) = log w @ new_log w (snd (run E T S w)) \<and>
   every_put_woken (new_log w (snd (run E T S w)))"
  using run_log[of E T S w]
  by (auto simp: send_progress_eq send_complete_eq new_log_def)

theorem publication_wakes_consumer_witness:
  "length (queue Progress (log (snd (run example_env example_thread example_script example_world)))) = 11 \<and>
   length (queue Complete (log (snd (run example_env example_thread example_script example_world)))) = 1 \<and>
   every_put_woken (log (snd (run example_env example_thread example_script example_world)))"
  using publication_wakes_consumer[of "[]" example_world example_env example_thread example_script]
    example_run_queues
  by (simp add: new_log_def example_world_def)

subsection \<open>The terminal event\<close>

lemma chain_finals:
  "filter (\<lambda>i. has_final E (make_monitors T ! i)) [0..<length (make_monitors T)] =
     (if timed_update_has_final E then [0, 1, 2] else [1, 2])"
  by (simp add: make_monitors_def upt_rec)

lemma run_fit_returns:
  assumes "\<not> isl (fst (run_fit E T S w))" and "ending S = Returns x fx"
  obtains Ms w2 where "run_fit E T S w = (Inr (Ms, x, fx), w2)"
proof -
  obtain r w2 where f: "run_fit E T S w = (r, w2)" by fastforce
  then obtain v where "r = Inr v" using assms(1) by (cases r) auto
  moreover obtain Ms x' fx' where "v = (Ms, x', fx')" by (cases v)
  ultimately have g: "run_fit E T S w = (Inr (Ms, x', fx'), w2)" using f by simp
  then have "ending S = Returns x' fx'" using run_fit_same by blast
  then show ?thesis using assms(2) g that by simp
qed

lemma run_returns_log:
  assumes "\<not> isl (fst (run_fit E T S w))" and "ending S = Returns x fx"
  shows "\<exists>before. run E T S w = (Inr (complete_event T x fx (show_output S)), snd (run E T S w)) \<and>
     log (snd (run E T S w)) = log w @ before @
        [Put Complete (complete_event T x fx (show_output S)), Wake Complete] \<and>
     queue Complete before = [] \<and>
     finals before = (if timed_update_has_final E then [0, 1, 2] else [1, 2])"
proof -
  from run_fit_returns[OF assms] obtain Ms w2 where f: "run_fit E T S w = (Inr (Ms, x, fx), w2)" .
  have "publishes (not_convergence True) w w2"
    using run_fit_publishes[of True T w E S] f by simp
  then obtain fl where fl: "log w2 = log w @ fl" "pubs (not_convergence True) fl"
    by (auto simp: publishes_iff)
  from run_returns[OF f]
  obtain c new w' where r: "run E T S w = (Inr (complete_event T x fx (show_output S)), w')"
      "pubs (\<lambda>e. True) new"
      "log w' = log w2 @ (if timed_update_has_final E then [Final 0] else []) @
        [Final 1, Put Progress (convergence_event c), Wake Progress, Final 2] @ new @
        [Put Complete (complete_event T x fx (show_output S)), Wake Complete]"
    by auto
  let ?before = "fl @ (if timed_update_has_final E then [Final 0] else []) @
        [Final 1, Put Progress (convergence_event c), Wake Progress, Final 2] @ new"
  have "queue Complete ?before = []"
    using pubs_no_complete[OF fl(2)] pubs_no_complete[OF r(2)] by (simp add: queue_append)
  moreover have "finals ?before = (if timed_update_has_final E then [0, 1, 2] else [1, 2])"
    using pubs_no_final[OF fl(2)] pubs_no_final[OF r(2)] by (simp add: finals_append)
  moreover have "log w' = log w @ ?before @
        [Put Complete (complete_event T x fx (show_output S)), Wake Complete]"
    using r(3) fl(1) by simp
  ultimately show ?thesis using r(1) by (intro exI[of _ ?before]) simp
qed

lemma run_raises_log:
  assumes "run_fit E T S w = (Inl e, w2)"
  shows "run E T S w = (Inl e, w2) \<and> log w2 = log w @ new_log w w2 \<and>
     queue Complete (new_log w w2) = [] \<and> finals (new_log w w2) = []"
proof -
  have "publishes (not_convergence True) w w2"
    using run_fit_publishes[of True T w E S] assms by simp
  then have "log w2 = log w @ new_log w w2" "pubs (not_convergence True) (new_log w w2)"
    using publishes_new_log by blast+
  then show ?thesis using run_raises[OF assms] pubs_no_complete pubs_no_final by blast
qed

lemma run_complete_queue:
  "queue Complete (new_log w (snd (run E T S w))) =
     (case fst (run_fit E T S w) of
        Inl e \<Rightarrow> []
      | Inr (Ms, x, fx) \<Rightarrow> [complete_event T x fx (show_output S)])"
proof -
  obtain r w2 where f: "run_fit E T S w = (r, w2)" by fastforce
  show ?thesis
  proof (cases r)
    case (Inl e)
    then show ?thesis using run_raises_log[of E T S w e w2] f by simp
  next
    case (Inr v)
    obtain Ms x fx where v: "v = (Ms, x, fx)" by (cases v)
    have n: "\<not> isl (fst (run_fit E T S w))" using f Inr by simp
    have e: "ending S = Returns x fx" using run_fit_same f Inr v by blast
    from run_returns_log[OF n e] obtain before where
       b: "log (snd (run E T S w)) = log w @ before @
          [Put Complete (complete_event T x fx (show_output S)), Wake Complete]"
       "queue Complete before = []"
      by blast
    then show ?thesis using f Inr v by (simp add: new_log_def queue_append)
  qed
qed

lemmas example_run_fit_result = arg_cong[OF example_run_fit, of fst, simplified]

lemma failing_run_fit_result:
  "fst (run_fit example_env example_thread failing_script example_world) = Inl FitError"
  by (simp add: job_defs)

text \<open>
  C1, as amended: when \<^verbatim>\<open>driver.fit()\<close> returns, after the loop ran to its end or was
  aborted, \<^verbatim>\<open>run\<close> puts exactly one complete event on the completion queue, as the last
  thing it does, and before it every monitor of the chain that has a \<^verbatim>\<open>final\<close> method
  got exactly one call of it, in the order of the chain. When \<^verbatim>\<open>driver.fit()\<close> raises,
  the exception leaves \<^verbatim>\<open>run\<close>: no complete event is put on the queue and no
  \<^verbatim>\<open>final\<close> is called.
\<close>

theorem run_completes_once:
  "log (snd (run E T S w)) = log w @ new_log w (snd (run E T S w)) \<and>
   (case fst (run_fit E T S w) of
      Inl e \<Rightarrow>
        fst (run E T S w) = Inl e \<and>
        queue Complete (new_log w (snd (run E T S w))) = [] \<and>
        finals (new_log w (snd (run E T S w))) = []
    | Inr (Ms, x, fx) \<Rightarrow>
        ending S = Returns x fx \<and>
        fst (run E T S w) = Inr (complete_event T x fx (show_output S)) \<and>
        (\<exists>before. new_log w (snd (run E T S w)) = before @
            [Put Complete (complete_event T x fx (show_output S)), Wake Complete] \<and>
           queue Complete before = [] \<and>
           finals before =
             filter (\<lambda>i. has_final E (make_monitors T ! i)) [0..<length (make_monitors T)]) \<and>
        queue Complete (new_log w (snd (run E T S w))) = [complete_event T x fx (show_output S)])"
proof -
  obtain r w2 where f: "run_fit E T S w = (r, w2)" by fastforce
  show ?thesis
  proof (cases r)
    case (Inl e)
    from run_raises_log[of E T S w e w2] f Inl show ?thesis by simp
  next
    case (Inr v)
    obtain Ms x fx where v: "v = (Ms, x, fx)" by (cases v)
    have n: "\<not> isl (fst (run_fit E T S w))" using f Inr by simp
    have e: "ending S = Returns x fx" using run_fit_same f Inr v by blast
    from run_returns_log[OF n e] obtain before where
      b: "run E T S w = (Inr (complete_event T x fx (show_output S)), snd (run E T S w))"
         "log (snd (run E T S w)) = log w @ before @
            [Put Complete (complete_event T x fx (show_output S)), Wake Complete]"
         "queue Complete before = []"
         "finals before = (if timed_update_has_final E then [0, 1, 2] else [1, 2])"
      by blast
    have r1: "fst (run E T S w) = Inr (complete_event T x fx (show_output S))"
      using b(1) by (metis fst_conv)
    have nl: "new_log w (snd (run E T S w)) = before @
        [Put Complete (complete_event T x fx (show_output S)), Wake Complete]"
      using b(2) by (simp add: new_log_def)
    have fin: "finals before =
        filter (\<lambda>i. has_final E (make_monitors T ! i)) [0..<length (make_monitors T)]"
      using b(4) chain_finals by simp
    have q: "queue Complete (new_log w (snd (run E T S w))) =
        [complete_event T x fx (show_output S)]"
      using nl b(3) by (simp add: queue_append)
    have l: "log (snd (run E T S w)) = log w @ new_log w (snd (run E T S w))"
      using b(2) nl by simp
    have "\<exists>before. new_log w (snd (run E T S w)) = before @
            [Put Complete (complete_event T x fx (show_output S)), Wake Complete] \<and>
           queue Complete before = [] \<and>
           finals before =
             filter (\<lambda>i. has_final E (make_monitors T ! i)) [0..<length (make_monitors T)]"
      using nl b(3) fin by blast
    then show ?thesis using f Inr v e r1 q l by simp
  qed
qed

theorem run_completes_once_witness:
  "fst (run example_env example_thread example_script example_world) =
     Inr (complete_event example_thread (PVec [5, 1]) (PFloat 1) ''chisq 1.0'') \<and>
   queue Complete (new_log example_world
       (snd (run example_env example_thread example_script example_world))) =
     [complete_event example_thread (PVec [5, 1]) (PFloat 1) ''chisq 1.0''] \<and>
   finals (new_log example_world
       (snd (run example_env example_thread example_script example_world))) = [1, 2] \<and>
   fst (run example_env example_thread failing_script example_world) = Inl FitError \<and>
   queue Complete (new_log example_world
       (snd (run example_env example_thread failing_script example_world))) = [] \<and>
   finals (new_log example_world
       (snd (run example_env example_thread failing_script example_world))) = []"
proof -
  have c: "show_output example_script = ''chisq 1.0''" by (simp add: example_script_def)
  note ok = run_completes_once[of example_env example_thread example_script example_world,
      unfolded example_run_fit_result c, simplified]
  note bad = run_completes_once[of example_env example_thread failing_script example_world,
      unfolded failing_run_fit_result, simplified]
  from ok obtain before where
    b: "new_log example_world (snd (run example_env example_thread example_script example_world)) =
          before @ [Put Complete (complete_event example_thread (PVec [5, 1]) (PFloat 1)
             ''chisq 1.0''), Wake Complete]"
       "finals before = filter (\<lambda>i. has_final example_env (make_monitors example_thread ! i))
          [0..<length (make_monitors example_thread)]"
    by blast
  have "finals before = [1, 2]"
    unfolding b(2) chain_finals by (simp add: example_env_def)
  then have f: "finals (new_log example_world
       (snd (run example_env example_thread example_script example_world))) = [1, 2]"
    unfolding b(1) by (simp add: finals_append)
  from ok bad f show ?thesis by blast
qed

text \<open>
  C1 as stated fails: when \<^verbatim>\<open>driver.fit()\<close> raises, the exception leaves \<^verbatim>\<open>run\<close>; no
  complete event is put on the completion queue and no monitor gets \<^verbatim>\<open>final\<close>.
\<close>

theorem run_failure_counterexample:
  "fst (run example_env example_thread failing_script example_world) = Inl FitError \<and>
   queue Complete (log (snd (run example_env example_thread failing_script example_world))) = [] \<and>
   finals (log (snd (run example_env example_thread failing_script example_world))) = []"
  using failing_run by simp

subsection \<open>Isolation of the problem\<close>

lemma run_result:
  "fst (run E T S w) =
     (case fst (run_fit E T S w) of
        Inl e \<Rightarrow> Inl e
      | Inr (Ms, x, fx) \<Rightarrow> Inr (complete_event T x fx (show_output S)))"
  by (cases "run_fit E T S w") (auto simp: run_def Let_def split: sum.splits)

text \<open>
  C3: \<^verbatim>\<open>run\<close> hands the driver a deep copy of the problem, a new object with the content
  of the caller's; whatever the driver writes to the problem it was handed, and however
  the run ends, the caller's problem and every other object the caller had hold what
  they held before; and the complete event that \<^verbatim>\<open>run\<close> puts on the completion queue,
  and keeps as its result, carries a reference to the caller's problem with the point and
  the value that \<^verbatim>\<open>fit\<close> returned and the captured output of \<^verbatim>\<open>show\<close>.
\<close>

theorem run_leaves_problem_alone:
  assumes "ft_problem T < length (heap w)"
  shows "dr_problem (fst (make_driver E T w)) \<noteq> ft_problem T \<and>
    heap (snd (make_driver E T w)) ! dr_problem (fst (make_driver E T w)) = heap w ! ft_problem T \<and>
    heap (snd (run E T S w)) ! ft_problem T = heap w ! ft_problem T \<and>
    take (length (heap w)) (heap (snd (run E T S w))) = heap w \<and>
    fst (run E T S w) =
      (case fst (run_fit E T S w) of
         Inl e \<Rightarrow> Inl e
       | Inr (Ms, x, fx) \<Rightarrow>
           Inr [(''message'', PStr ''complete''), (''problem'', PRef (ft_problem T)),
                (''point'', x), (''value'', fx), (''info'', PStr (show_output S))]) \<and>
    log (snd (run E T S w)) = log w @ new_log w (snd (run E T S w)) \<and>
    queue Complete (new_log w (snd (run E T S w))) =
      (case fst (run_fit E T S w) of
         Inl e \<Rightarrow> []
       | Inr (Ms, x, fx) \<Rightarrow>
           [[(''message'', PStr ''complete''), (''problem'', PRef (ft_problem T)),
             (''point'', x), (''value'', fx), (''info'', PStr (show_output S))]])"
proof -
  have p: "preserves (length (heap w)) w (snd (run E T S w))"
    by (rule run_preserves) simp
  have a: "dr_problem (fst (make_driver E T w)) \<noteq> ft_problem T"
    using assms by (simp add: make_driver_eq)
  have b: "heap (snd (make_driver E T w)) ! dr_problem (fst (make_driver E T w)) =
      heap w ! ft_problem T"
    by (simp add: make_driver_eq)
  have c: "heap (snd (run E T S w)) ! ft_problem T = heap w ! ft_problem T"
    using preserves_nth[OF p assms] .
  have d: "take (length (heap w)) (heap (snd (run E T S w))) = heap w"
    using p by (simp add: preserves_def)
  have l: "log (snd (run E T S w)) = log w @ new_log w (snd (run E T S w))"
    using run_log[of E T S w] by (auto simp: new_log_def)
  show ?thesis
    using a b c d l run_result[of E T S w, unfolded complete_event_def]
      run_complete_queue[of w E T S, unfolded complete_event_def]
    by simp
qed

theorem run_leaves_problem_alone_witness:
  "ft_problem example_thread < length (heap example_world) \<and>
   heap example_world ! ft_problem example_thread = [0, 0] \<and>
   heap (snd (run example_env example_thread example_script example_world)) ! 0 = [0, 0] \<and>
   heap (snd (run example_env example_thread example_script example_world)) ! 1 = [5, 1] \<and>
   dr_problem (fst (make_driver example_env example_thread example_world)) = 1 \<and>
   fst (run example_env example_thread example_script example_world) =
     Inr [(''message'', PStr ''complete''), (''problem'', PRef 0), (''point'', PVec [5, 1]),
          (''value'', PFloat 1), (''info'', PStr ''chisq 1.0'')] \<and>
   queue Complete (new_log example_world
       (snd (run example_env example_thread example_script example_world))) =
     [[(''message'', PStr ''complete''), (''problem'', PRef 0), (''point'', PVec [5, 1]),
       (''value'', PFloat 1), (''info'', PStr ''chisq 1.0'')]]"
proof -
  have a: "ft_problem example_thread < length (heap example_world)"
    by (simp add: example_thread_def example_world_def)
  have b: "dr_problem (fst (make_driver example_env example_thread example_world)) = 1"
    by (simp add: make_driver_eq example_world_def)
  have c: "show_output example_script = ''chisq 1.0''" "ft_problem example_thread = 0"
    by (simp_all add: example_script_def example_thread_def)
  have h: "heap example_world ! ft_problem example_thread = [0, 0]"
    by (simp add: example_thread_def example_world_def)
  note t = run_leaves_problem_alone[OF a, of example_env example_script,
      unfolded example_run_fit_result c, simplified]
  from t a b h example_run_heap show ?thesis by blast
qed

subsection \<open>A job with convergence cadence zero\<close>

lemma pubs_not_convergence:
  "pubs (not_convergence False) xs \<Longrightarrow>
     filter (\<lambda>e. message e = PStr ''convergence_update'') (queue Progress xs) = []"
  by (induction "not_convergence False" xs rule: pubs.induct)
     (auto simp: not_convergence_def)

text \<open>
  C7, as amended: in a job with convergence cadence 0 whose \<^verbatim>\<open>fit\<close> returns, of five
  iterations or any other number, no convergence_update event is published while
  \<^verbatim>\<open>fit\<close> runs, and exactly one complete event is put on the completion queue; its
  keys are message, problem, point, value and info.
\<close>

theorem final_only_convergence:
  assumes "ft_convergence_update T = 0"
    and "\<not> isl (fst (run_fit E T S w))" and "ending S = Returns x fx"
  shows "filter (\<lambda>e. message e = PStr ''convergence_update'')
           (queue Progress (new_log w (snd (run_fit E T S w)))) = [] \<and>
    queue Complete (new_log w (snd (run E T S w))) = [complete_event T x fx (show_output S)] \<and>
    map fst (complete_event T x fx (show_output S)) =
      [''message'', ''problem'', ''point'', ''value'', ''info'']"
proof -
  have "publishes (not_convergence False) w (snd (run_fit E T S w))"
    using run_fit_publishes[of False T w E S] assms(1) by simp
  then have a: "filter (\<lambda>e. message e = PStr ''convergence_update'')
           (queue Progress (new_log w (snd (run_fit E T S w)))) = []"
    using publishes_new_log pubs_not_convergence by blast
  from run_returns_log[OF assms(2,3)] obtain before where
       b: "log (snd (run E T S w)) = log w @ before @
          [Put Complete (complete_event T x fx (show_output S)), Wake Complete]"
       "queue Complete before = []"
    by blast
  have "queue Complete (new_log w (snd (run E T S w))) = [complete_event T x fx (show_output S)]"
    using b by (simp add: new_log_def queue_append)
  then show ?thesis using a by (simp add: complete_event_def)
qed

theorem final_only_convergence_witness:
  "ft_convergence_update example_thread = 0 \<and>
   length (iterations example_script) = 5 \<and>
   \<not> isl (fst (run_fit example_env example_thread example_script example_world)) \<and>
   ending example_script = Returns (PVec [5, 1]) (PFloat 1) \<and>
   filter (\<lambda>e. message e = PStr ''convergence_update'')
     (queue Progress (log (snd (run_fit example_env example_thread example_script example_world)))) = [] \<and>
   queue Complete (log (snd (run example_env example_thread example_script example_world))) =
     [complete_event example_thread (PVec [5, 1]) (PFloat 1) ''chisq 1.0'']"
proof -
  have z: "ft_convergence_update example_thread = 0" by (simp add: example_thread_def)
  have a: "\<not> isl (fst (run_fit example_env example_thread example_script example_world))"
    by (subst example_run_fit) simp
  have b: "ending example_script = Returns (PVec [5, 1]) (PFloat 1)"
    by (simp add: example_script_def)
  have c: "show_output example_script = ''chisq 1.0''" "length (iterations example_script) = 5"
    by (simp_all add: example_script_def)
  show ?thesis
    using final_only_convergence[OF z a b] z a b c
    by (simp add: new_log_def example_world_def)
qed

text \<open>
  C7 as stated fails: the complete event of the five-iteration job has no key
  \<^verbatim>\<open>step\<close>, although the last history had step 5.
\<close>

theorem complete_event_step_counterexample:
  "it_step (last (iterations example_script)) = 5 \<and>
   queue Complete (log (snd (run example_env example_thread example_script example_world))) =
     [[(''message'', PStr ''complete''), (''problem'', PRef 0), (''point'', PVec [5, 1]),
       (''value'', PFloat 1), (''info'', PStr ''chisq 1.0'')]] \<and>
   map_of (hd (queue Complete
     (log (snd (run example_env example_thread example_script example_world))))) ''step'' = None"
  using example_run_queues by (simp add: example_script_def example_iteration_def)

subsection \<open>The improvement event\<close>

text \<open>
  C9, as amended: the improvement event carries, besides the message tag, the fields
  problem, step, value and point; the point is a new array with the content of the
  current point, and a later write to the point buffer of the history does not reach it.
\<close>

theorem improvement_event_fields:
  assumes "h_point h < length (heap w)"
  shows "log (show_improvement M h w) = log w @
      [Put Progress [(''problem'', PRef (gp_problem M)), (''message'', PStr ''improvement''),
         (''step'', PInt (h_step h)), (''value'', PFloat (h_value h)),
         (''point'', PRef (length (heap w)))],
       Wake Progress] \<and>
    length (heap w) \<noteq> h_point h \<and>
    heap (show_improvement M h w) ! length (heap w) = heap w ! h_point h \<and>
    take (length (heap w)) (heap (show_improvement M h w)) = heap w \<and>
    (heap (show_improvement M h w))[h_point h := v] ! length (heap w) = heap w ! h_point h"
  using assms by (simp add: show_improvement_eq nth_append)

theorem improvement_event_fields_witness:
  "h_point example_history < length (heap example_world) \<and>
   queue Progress (log (show_improvement (GUIProgressMonitor_init 0 None None) example_history
      example_world)) =
     [[(''problem'', PRef 0), (''message'', PStr ''improvement''), (''step'', PInt 1),
       (''value'', PFloat 2), (''point'', PRef 1)]] \<and>
   heap (show_improvement (GUIProgressMonitor_init 0 None None) example_history example_world) ! 1 =
     [0, 0] \<and>
   (heap (show_improvement (GUIProgressMonitor_init 0 None None) example_history example_world))
     [0 := [7, 7]] ! 1 = [0, 0]"
proof -
  have a: "h_point example_history < length (heap example_world)"
    by (simp add: example_history_def example_world_def)
  show ?thesis
    using improvement_event_fields[OF a, of "GUIProgressMonitor_init 0 None None" "[7, 7]"] a
    by (simp add: example_history_def example_world_def GUIProgressMonitor_init_def)
qed



text \<open>
  C9 as stated fails: besides the message tag the event has the key \<^verbatim>\<open>problem\<close> too.
\<close>

theorem improvement_event_counterexample:
  "queue Progress (log (show_improvement (GUIProgressMonitor_init 0 None None) example_history
      example_world)) =
     [[(''problem'', PRef 0), (''message'', PStr ''improvement''), (''step'', PInt 1),
       (''value'', PFloat 2), (''point'', PRef 1)]] \<and>
   ''problem'' \<in> set (map fst (hd (queue Progress (log (show_improvement
      (GUIProgressMonitor_init 0 None None) example_history example_world))))) \<and>
   ''problem'' \<notin> {''message'', ''step'', ''value'', ''point''}"
  by (simp add: show_improvement_eq example_history_def example_world_def
      GUIProgressMonitor_init_def)

subsection \<open>The payload of the convergence event\<close>

lemma convergence_calls_pop:
  "convergence_calls M hs w = (Inr M', w') \<Longrightarrow>
     map Inr (cm_pop M') = map Inr (cm_pop M) @ map sample hs \<and>
     cm_problem M' = cm_problem M \<and> cm_message M' = cm_message M \<and> cm_rate M' = cm_rate M"
proof (induction hs arbitrary: M w)
  case Nil
  then show ?case by simp
next
  case (Cons h hs)
  obtain r w1 where r: "ConvergenceMonitor_call M h w = (r, w1)" by fastforce
  then obtain M1 where M1: "r = Inr M1" and rest: "convergence_calls M1 hs w1 = (Inr M', w')"
    using Cons.prems by (auto split: sum.splits)
  from ConvergenceMonitor_call_cases[OF r] M1 obtain t where
    t: "sample h = Inr t" "cm_pop M1 = cm_pop M @ [t]" "cm_problem M1 = cm_problem M"
       "cm_message M1 = cm_message M" "cm_rate M1 = cm_rate M"
    by (auto split: if_splits)
  from Cons.IH[OF rest] t show ?case by simp
qed

text \<open>
  C4: what \<^verbatim>\<open>__call__\<close> appends is the tuple of the history, and the one-element tuple
  of the best value when the history has no \<^verbatim>\<open>population_values\<close>; after any calls
  since the monitor was made, the event that the next \<^verbatim>\<open>__call__\<close> publishes, when
  its rate gate opens, and the event of \<^verbatim>\<open>final\<close> carry as \<^verbatim>\<open>pop\<close> the array whose
  rows are the tuples of all the histories seen, the newest included.
\<close>

theorem convergence_event_carries_all:
  assumes "convergence_calls (ConvergenceMonitor_init p msg r) hs w0 = (Inr M, w)"
    and "ConvergenceMonitor_call M h w1 = (Inr M', w')"
  shows "map sample (hs @ [h]) = map Inr (cm_pop M') \<and>
    rows (progress M') = cm_pop M' \<and>
    log w' =
      (if 0 < r \<and> float_add (cm_time M) r \<le> h_time h
       then log w1 @
         [Put Progress [(''problem'', PRef p), (''message'', PStr msg),
            (''pop'', PArray (progress M'))],
          Wake Progress]
       else log w1) \<and>
    log (ConvergenceMonitor_final M' w2) = log w2 @
      [Put Progress [(''problem'', PRef p), (''message'', PStr msg),
         (''pop'', PArray (progress M'))],
       Wake Progress] \<and>
    sample (h\<lparr>h_population_values := None\<rparr>) = Inr [h_value h]"
proof -
  from convergence_calls_pop[OF assms(1)] have
    M: "map Inr (cm_pop M) = map sample hs" "cm_problem M = p" "cm_message M = msg" "cm_rate M = r"
    by (simp_all add: ConvergenceMonitor_init_def)
  from ConvergenceMonitor_call_cases[OF assms(2)] obtain t where
    t: "sample h = Inr t"
       "if cm_rate M > 0 \<and> h_time h \<ge> float_add (cm_time M) (cm_rate M)
         then M' = M\<lparr>cm_pop := cm_pop M @ [t], cm_time := h_time h\<rparr> \<and>
              w' = w1\<lparr>log := log w1 @ [Put Progress (convergence_event (M\<lparr>cm_pop := cm_pop M @ [t]\<rparr>)), Wake Progress]\<rparr>
         else M' = M\<lparr>cm_pop := cm_pop M @ [t]\<rparr> \<and> w' = w1"
    by (auto split: if_splits)
  have pop: "cm_pop M' = cm_pop M @ [t]" and same: "cm_problem M' = p" "cm_message M' = msg"
    using t(2) M by (auto split: if_splits)
  have prog: "progress (M\<lparr>cm_pop := cm_pop M @ [t]\<rparr>) = progress M'"
    using pop by (simp add: progress_def)
  have a: "map sample (hs @ [h]) = map Inr (cm_pop M')" using M(1) t(1) pop by simp
  have b: "log w' =
      (if 0 < r \<and> float_add (cm_time M) r \<le> h_time h
       then log w1 @
         [Put Progress [(''problem'', PRef p), (''message'', PStr msg),
            (''pop'', PArray (progress M'))],
          Wake Progress]
       else log w1)"
    using t(2) M prog by (auto simp: convergence_event_def split: if_splits)
  have c: "log (ConvergenceMonitor_final M' w2) = log w2 @
      [Put Progress [(''problem'', PRef p), (''message'', PStr msg),
         (''pop'', PArray (progress M'))],
       Wake Progress]"
    using same by (simp add: ConvergenceMonitor_final_eq)
  show ?thesis using a b c by (simp add: rows_progress sample_no_pop)
qed



theorem convergence_event_carries_all_witness:
  "convergence_calls (ConvergenceMonitor_init 0 ''convergence_update'' 2)
      [example_history, example_history] example_world =
     (Inr \<lparr>cm_time = 0, cm_rate = 2, cm_problem = 0, cm_message = ''convergence_update'',
           cm_pop = [[2, 1, 3, 5, 7, 9], [2, 1, 3, 5, 7, 9]]\<rparr>, example_world) \<and>
   ConvergenceMonitor_call
      \<lparr>cm_time = 0, cm_rate = 2, cm_problem = 0, cm_message = ''convergence_update'',
       cm_pop = [[2, 1, 3, 5, 7, 9], [2, 1, 3, 5, 7, 9]]\<rparr> (example_history\<lparr>h_time := 5\<rparr>)
      example_world =
     (Inr \<lparr>cm_time = 5, cm_rate = 2, cm_problem = 0, cm_message = ''convergence_update'',
           cm_pop = [[2, 1, 3, 5, 7, 9], [2, 1, 3, 5, 7, 9], [2, 1, 3, 5, 7, 9]]\<rparr>,
      example_world\<lparr>log :=
        [Put Progress [(''problem'', PRef 0), (''message'', PStr ''convergence_update''),
           (''pop'', PArray (FloatArray [3, 6]
              [[2, 1, 3, 5, 7, 9], [2, 1, 3, 5, 7, 9], [2, 1, 3, 5, 7, 9]]))],
         Wake Progress]\<rparr>) \<and>
   rows (progress \<lparr>cm_time = 5, cm_rate = 2, cm_problem = 0, cm_message = ''convergence_update'',
           cm_pop = [[2, 1, 3, 5, 7, 9], [2, 1, 3, 5, 7, 9], [2, 1, 3, 5, 7, 9]]\<rparr>) =
     [[2, 1, 3, 5, 7, 9], [2, 1, 3, 5, 7, 9], [2, 1, 3, 5, 7, 9]]"
proof -
  have a: "convergence_calls (ConvergenceMonitor_init 0 ''convergence_update'' 2)
      [example_history, example_history] example_world =
     (Inr \<lparr>cm_time = 0, cm_rate = 2, cm_problem = 0, cm_message = ''convergence_update'',
           cm_pop = [[2, 1, 3, 5, 7, 9], [2, 1, 3, 5, 7, 9]]\<rparr>, example_world)"
    by (simp add: float_add_small ConvergenceMonitor_init_def ConvergenceMonitor_call_def sample_def py_index_def
        Let_def example_history_def)
  have b: "ConvergenceMonitor_call
      \<lparr>cm_time = 0, cm_rate = 2, cm_problem = 0, cm_message = ''convergence_update'',
       cm_pop = [[2, 1, 3, 5, 7, 9], [2, 1, 3, 5, 7, 9]]\<rparr> (example_history\<lparr>h_time := 5\<rparr>)
      example_world =
     (Inr \<lparr>cm_time = 5, cm_rate = 2, cm_problem = 0, cm_message = ''convergence_update'',
           cm_pop = [[2, 1, 3, 5, 7, 9], [2, 1, 3, 5, 7, 9], [2, 1, 3, 5, 7, 9]]\<rparr>,
      example_world\<lparr>log :=
        [Put Progress [(''problem'', PRef 0), (''message'', PStr ''convergence_update''),
           (''pop'', PArray (FloatArray [3, 6]
              [[2, 1, 3, 5, 7, 9], [2, 1, 3, 5, 7, 9], [2, 1, 3, 5, 7, 9]]))],
         Wake Progress]\<rparr>)"
    by (simp add: float_add_small ConvergenceMonitor_call_def sample_def py_index_def Let_def example_history_def
        send_progress_eq convergence_event_def progress_def np_array_def example_world_def)
  show ?thesis using convergence_event_carries_all[OF a b] a b by simp
qed

subsection \<open>The final uncertainty event\<close>

lemma dream_calls_state:
  "dream_calls M hs w = (M', w') \<Longrightarrow>
     dm_uncertainty_state M' = (if hs = [] then dm_uncertainty_state M else h_uncertainty_state (last hs)) \<and>
     dm_problem M' = dm_problem M"
proof (induction hs arbitrary: M w)
  case Nil
  then show ?case by simp
next
  case (Cons h hs)
  obtain M1 w1 where r: "DreamMonitor_call M h w = (M1, w1)" by fastforce
  then have rest: "dream_calls M1 hs w1 = (M', w')" using Cons.prems by simp
  from DreamMonitor_call_cases[OF r] have
    "dm_uncertainty_state M1 = h_uncertainty_state h" "dm_problem M1 = dm_problem M"
    by (auto split: if_splits)
  then show ?case using Cons.IH[OF rest] by simp
qed

lemma dream_calls_silent:
  "list_all (\<lambda>h. h_uncertainty_state h = None) hs \<Longrightarrow> dream_calls M hs w = (M', w') \<Longrightarrow> w' = w"
proof (induction hs arbitrary: M)
  case Nil
  then show ?case by simp
next
  case (Cons h hs)
  obtain M1 w1 where r: "DreamMonitor_call M h w = (M1, w1)" by fastforce
  from DreamMonitor_call_cases[OF r] Cons.prems(1) have "w1 = w" by simp
  then show ?case using Cons r by simp
qed

text \<open>
  C5, as amended: \<^verbatim>\<open>DreamMonitor.final\<close> publishes an uncertainty_final event with a
  deep copy of the uncertainty state of the history it was called with last, when that
  history had one, and nothing otherwise; in a job whose histories never have an
  uncertainty state, neither \<^verbatim>\<open>__call__\<close> nor \<^verbatim>\<open>final\<close> publishes anything.
\<close>

theorem uncertainty_final_event:
  assumes "dream_calls (DreamMonitor_init p msg fitter r) hs w0 = (M, w)"
  shows "dm_uncertainty_state M = (if hs = [] then None else h_uncertainty_state (last hs)) \<and>
    DreamMonitor_final M w' =
      (case dm_uncertainty_state M of
         None \<Rightarrow> w'
       | Some a \<Rightarrow>
           w'\<lparr>heap := heap w' @ [heap w' ! a],
              log := log w' @
                [Put Progress [(''problem'', PRef p), (''message'', PStr ''uncertainty_final''),
                   (''uncertainty_state'', PRef (length (heap w')))],
                 Wake Progress]\<rparr>) \<and>
    (list_all (\<lambda>h. h_uncertainty_state h = None) hs \<longrightarrow> w = w0 \<and> DreamMonitor_final M w = w0)"
proof -
  from dream_calls_state[OF assms] have
    s: "dm_uncertainty_state M = (if hs = [] then None else h_uncertainty_state (last hs))"
    and p: "dm_problem M = p"
    by (simp_all add: DreamMonitor_init_def)
  have f: "DreamMonitor_final M w' =
      (case dm_uncertainty_state M of
         None \<Rightarrow> w'
       | Some a \<Rightarrow>
           w'\<lparr>heap := heap w' @ [heap w' ! a],
              log := log w' @
                [Put Progress [(''problem'', PRef p), (''message'', PStr ''uncertainty_final''),
                   (''uncertainty_state'', PRef (length (heap w')))],
                 Wake Progress]\<rparr>)"
    using p by (simp add: DreamMonitor_final_def uncertainty_event_eq split: option.splits)
  have "w = w0 \<and> DreamMonitor_final M w = w0"
    if n: "list_all (\<lambda>h. h_uncertainty_state h = None) hs"
  proof -
    have "w = w0" using dream_calls_silent[OF n assms] .
    moreover have "dm_uncertainty_state M = None"
      using s n by (cases hs rule: rev_cases) auto
    ultimately show ?thesis by (simp add: DreamMonitor_final_def)
  qed
  then show ?thesis using s f by blast
qed

theorem uncertainty_final_event_witness:
  "dream_calls (DreamMonitor_init 0 ''uncertainty_update'' ''dream'' 300)
      [example_history, state_history] example_world =
     (\<lparr>dm_time = 0, dm_rate = 300, dm_problem = 0, dm_fitter = ''dream'',
       dm_message = ''uncertainty_update'', dm_uncertainty_state = Some 0\<rparr>, example_world) \<and>
   DreamMonitor_final \<lparr>dm_time = 0, dm_rate = 300, dm_problem = 0, dm_fitter = ''dream'',
       dm_message = ''uncertainty_update'', dm_uncertainty_state = Some 0\<rparr> example_world =
     \<lparr>heap = [[0, 0], [0, 0]],
      log = [Put Progress [(''problem'', PRef 0), (''message'', PStr ''uncertainty_final''),
               (''uncertainty_state'', PRef 1)],
             Wake Progress]\<rparr> \<and>
   list_all (\<lambda>h. h_uncertainty_state h = None) [example_history, example_history] \<and>
   dream_calls (DreamMonitor_init 0 ''uncertainty_update'' ''dream'' 300)
      [example_history, example_history] example_world =
     (\<lparr>dm_time = 0, dm_rate = 300, dm_problem = 0, dm_fitter = ''dream'',
       dm_message = ''uncertainty_update'', dm_uncertainty_state = None\<rparr>, example_world) \<and>
   DreamMonitor_final \<lparr>dm_time = 0, dm_rate = 300, dm_problem = 0, dm_fitter = ''dream'',
       dm_message = ''uncertainty_update'', dm_uncertainty_state = None\<rparr> example_world =
     example_world"
proof -
  have a: "dream_calls (DreamMonitor_init 0 ''uncertainty_update'' ''dream'' 300)
      [example_history, state_history] example_world =
     (\<lparr>dm_time = 0, dm_rate = 300, dm_problem = 0, dm_fitter = ''dream'',
       dm_message = ''uncertainty_update'', dm_uncertainty_state = Some 0\<rparr>, example_world)"
    by (simp add: float_add_small DreamMonitor_init_def DreamMonitor_call_def Let_def example_history_def
        state_history_def)
  have b: "dream_calls (DreamMonitor_init 0 ''uncertainty_update'' ''dream'' 300)
      [example_history, example_history] example_world =
     (\<lparr>dm_time = 0, dm_rate = 300, dm_problem = 0, dm_fitter = ''dream'',
       dm_message = ''uncertainty_update'', dm_uncertainty_state = None\<rparr>, example_world)"
    by (simp add: float_add_small DreamMonitor_init_def DreamMonitor_call_def Let_def example_history_def)
  have n: "list_all (\<lambda>h. h_uncertainty_state h = None) [example_history, example_history]"
    by (simp add: example_history_def)
  have f1: "DreamMonitor_final \<lparr>dm_time = 0, dm_rate = 300, dm_problem = 0, dm_fitter = ''dream'',
       dm_message = ''uncertainty_update'', dm_uncertainty_state = Some 0\<rparr> example_world =
     \<lparr>heap = [[0, 0], [0, 0]],
      log = [Put Progress [(''problem'', PRef 0), (''message'', PStr ''uncertainty_final''),
               (''uncertainty_state'', PRef 1)],
             Wake Progress]\<rparr>"
    using uncertainty_final_event[OF a, of example_world]
    by (simp add: example_world_def state_history_def example_history_def)
  have f2: "DreamMonitor_final \<lparr>dm_time = 0, dm_rate = 300, dm_problem = 0, dm_fitter = ''dream'',
       dm_message = ''uncertainty_update'', dm_uncertainty_state = None\<rparr> example_world =
     example_world"
    using uncertainty_final_event[OF b, of example_world] n by blast
  from a f1 n b f2 show ?thesis by (intro conjI)
qed

text \<open>
  C5 as stated fails: an uncertainty state was captured at the first call, the history
  of the second call had none, and \<^verbatim>\<open>final\<close> publishes nothing.
\<close>

theorem uncertainty_final_counterexample:
  "dm_uncertainty_state (fst (DreamMonitor_call
      (DreamMonitor_init 0 ''uncertainty_update'' ''dream'' 300) state_history example_world)) = Some 0 \<and>
   dm_uncertainty_state (fst (dream_calls
      (DreamMonitor_init 0 ''uncertainty_update'' ''dream'' 300)
      [state_history, example_history] example_world)) = None \<and>
   DreamMonitor_final
     (fst (dream_calls (DreamMonitor_init 0 ''uncertainty_update'' ''dream'' 300)
        [state_history, example_history] example_world))
     (snd (dream_calls (DreamMonitor_init 0 ''uncertainty_update'' ''dream'' 300)
        [state_history, example_history] example_world)) = example_world"
  by (simp add: float_add_small DreamMonitor_init_def DreamMonitor_call_def DreamMonitor_final_def Let_def
      example_history_def state_history_def)

end
